theory Spec2Isabelle
  imports Main
begin

section \<open>The document tree seen by \<open>sanitizeDOM\<close>\<close>

text \<open>
  \<open>sanitizeDOM\<close> (src/index.ts, lines 64-90) parses a string with the host's
  \<open>DOMParser\<close>, edits the parsed tree in three passes and returns
  \<open>doc.documentElement.outerHTML\<close>. The parser and the serialiser belong to the host and
  are parameters of the model (\<open>dom_api\<close>); the three passes are translated on a tree of
  nodes.

  An element carries: whether it is in the HTML namespace (an \<open>input\<close> element is an
  \<open>HTMLInputElement\<close> exactly when it is); its local name, which the selectors
  \<open>'script'\<close> and \<open>'input, textarea'\<close> match on; its attributes in order; the value that
  a script has assigned to it, if any (an input whose \<open>value\<close> property is kept apart
  from its \<open>value\<close> attribute); its children; and, for a \<open>template\<close>, its template
  contents. The selectors walk from an element to its children and never enter template
  contents. Text and comments are the other nodes of a tree.
\<close>

datatype error = TypeError | HostError string

datatype node =
    Element bool string "(string \<times> string) list" "string option" "node list" "node list"
  | Text string
  | Comment string

text \<open>A document is its \<open>documentElement\<close>, \<open>None\<close> being JavaScript's \<open>null\<close>.\<close>

type_synonym document = "node option"

record dom_api =
  parseFromString :: "string \<Rightarrow> error + document"
  outerHTML :: "node \<Rightarrow> string"

fun startsWith :: "string \<Rightarrow> string \<Rightarrow> bool" where
  "startsWith s [] = True"
| "startsWith [] (p # ps) = False"
| "startsWith (c # cs) (p # ps) = (c = p \<and> startsWith cs ps)"

text \<open>\<open>toLowerCase\<close> on the ASCII letters.\<close>

definition toLowerCase_char :: "char \<Rightarrow> char" where
  "toLowerCase_char c =
     (if 65 \<le> (of_char c :: nat) \<and> (of_char c :: nat) \<le> 90
      then char_of ((of_char c :: nat) + 32) else c)"

definition toLowerCase :: "string \<Rightarrow> string" where
  "toLowerCase s = map toLowerCase_char s"

subsection \<open>Pass 1: \<open>doc.querySelectorAll('script').forEach(el => el.remove())\<close>\<close>

fun is_script :: "node \<Rightarrow> bool" where
  "is_script (Element html name as v cs tc) = (name = ''script'')"
| "is_script (Text t) = False"
| "is_script (Comment t) = False"

fun remove_scripts :: "node \<Rightarrow> node"
  and remove_scripts_list :: "node list \<Rightarrow> node list" where
  "remove_scripts (Element html name as v cs tc) =
     Element html name as v (remove_scripts_list cs) tc"
| "remove_scripts (Text t) = Text t"
| "remove_scripts (Comment t) = Comment t"
| "remove_scripts_list [] = []"
| "remove_scripts_list (c # cs) =
     (if is_script c then remove_scripts_list cs
      else remove_scripts c # remove_scripts_list cs)"

text \<open>
  The selector also matches the root; removing the root leaves the document without a
  \<open>documentElement\<close>.
\<close>

fun remove_scripts_doc :: "document \<Rightarrow> document" where
  "remove_scripts_doc None = None"
| "remove_scripts_doc (Some root) =
     (if is_script root then None else Some (remove_scripts root))"

subsection \<open>Pass 2: removing the attributes whose name starts with \<open>on\<close>\<close>

text \<open>
  \<open>el.removeAttribute(name)\<close> removes the first attribute of that name. The loop runs
  over \<open>Array.from(el.attributes)\<close>, a copy taken before the first removal, and removes
  from the live list.
\<close>

fun removeAttribute :: "string \<Rightarrow> (string \<times> string) list \<Rightarrow> (string \<times> string) list" where
  "removeAttribute name [] = []"
| "removeAttribute name ((n, v) # as) =
     (if n = name then as else (n, v) # removeAttribute name as)"

definition is_handler_name :: "string \<Rightarrow> bool" where
  "is_handler_name name = startsWith name ''on''"

fun remove_listed ::
  "(string \<times> string) list \<Rightarrow> (string \<times> string) list \<Rightarrow> (string \<times> string) list" where
  "remove_listed [] live = live"
| "remove_listed ((n, v) # snapshot) live =
     remove_listed snapshot (if is_handler_name n then removeAttribute n live else live)"

definition remove_handler_attributes :: "(string \<times> string) list \<Rightarrow> (string \<times> string) list" where
  "remove_handler_attributes as = remove_listed as as"

fun remove_handlers :: "node \<Rightarrow> node" where
  "remove_handlers (Element html name as v cs tc) =
     Element html name (remove_handler_attributes as) v (map remove_handlers cs) tc"
| "remove_handlers (Text t) = Text t"
| "remove_handlers (Comment t) = Comment t"

subsection \<open>Pass 3: \<open>el.value = ''\<close> on password and hidden fields\<close>

text \<open>
  What the host does on the two property accesses of this pass. The \<open>type\<close> property of
  an input is the keyword of its \<open>type\<close> attribute, compared without regard to ASCII
  case, and \<open>text\<close> when the attribute is missing or is no keyword; the \<open>type\<close> property
  of a textarea is the constant \<open>textarea\<close>. Assigning to \<open>value\<close> depends on the type
  of the input: for \<open>password\<close> the element keeps the assigned value beside its attributes,
  which stay as they are; for \<open>hidden\<close> the assignment writes the \<open>value\<close> attribute, in
  place if the element has one and as a new last attribute otherwise.
\<close>

definition input_types :: "string list" where
  "input_types =
     [''hidden'', ''text'', ''search'', ''tel'', ''url'', ''email'', ''password'', ''date'',
      ''month'', ''week'', ''time'', ''datetime-local'', ''number'', ''range'', ''color'',
      ''checkbox'', ''radio'', ''file'', ''submit'', ''image'', ''reset'', ''button'']"

definition type_property :: "string \<Rightarrow> (string \<times> string) list \<Rightarrow> string" where
  "type_property name as =
     (if name = ''textarea'' then ''textarea''
      else (case map_of as ''type'' of
              None \<Rightarrow> ''text''
            | Some t \<Rightarrow> if toLowerCase t \<in> set input_types then toLowerCase t else ''text''))"

fun setAttribute :: "string \<Rightarrow> string \<Rightarrow> (string \<times> string) list \<Rightarrow> (string \<times> string) list" where
  "setAttribute name val [] = [(name, val)]"
| "setAttribute name val ((n, v) # as) =
     (if n = name then (n, val) # as else (n, v) # setAttribute name val as)"

text \<open>
  The selector picks the elements named \<open>input\<close> or \<open>textarea\<close>; the \<open>instanceof\<close>
  test keeps those in the HTML namespace.
\<close>

fun clear_sensitive :: "node \<Rightarrow> node" where
  "clear_sensitive (Element html name as v cs tc) =
     (if (name = ''input'' \<or> name = ''textarea'') \<and> html
      then (if type_property name as = ''password''
            then Element html name as (Some []) (map clear_sensitive cs) tc
            else if type_property name as = ''hidden''
            then Element html name (setAttribute ''value'' [] as) v (map clear_sensitive cs) tc
            else Element html name as v (map clear_sensitive cs) tc)
      else Element html name as v (map clear_sensitive cs) tc)"
| "clear_sensitive (Text t) = Text t"
| "clear_sensitive (Comment t) = Comment t"

subsection \<open>\<open>sanitizeDOM\<close>\<close>

definition sanitize_document :: "document \<Rightarrow> document" where
  "sanitize_document doc =
     map_option (clear_sensitive \<circ> remove_handlers) (remove_scripts_doc doc)"

definition sanitizeDOM :: "dom_api \<Rightarrow> string \<Rightarrow> error + string" where
  "sanitizeDOM api html =
     (case parseFromString api html of
        Inl e \<Rightarrow> Inl e
      | Inr doc \<Rightarrow>
          (case sanitize_document doc of
             None \<Rightarrow> Inl TypeError
           | Some root \<Rightarrow> Inr (outerHTML api root)))"

section \<open>The session object and its host\<close>

text \<open>
  The payloads the code passes to \<open>captureEvent\<close>. Coordinates and sizes are passed
  through unchanged.
\<close>

datatype payload =
    DomSnapshot string int int string
  | ScrollPos int int
  | MouseMove int int
  | Click int int string

record EventData =
  type :: string
  data :: payload
  timestamp :: int

text \<open>
  The fields of class \<open>ReplaySDK\<close>, followed by the two variables \<open>lastMoveTime\<close> and
  \<open>lastScrollTime\<close> that the listeners of \<open>initializeEventListeners\<close> close over.
  \<open>websiteId\<close> and \<open>apiEndpoint\<close> hold what the caller's configuration holds at run
  time: a string, or \<open>undefined\<close> for a missing property, or \<open>null\<close>. A timer handle
  that has not been set is \<open>None\<close>. \<open>log\<close> writes to the console when \<open>debug\<close> is
  set and touches no field; the console is not modelled.
\<close>

datatype jsval = Undefined | Null | Str string

record ReplaySDK =
  events :: "EventData list"
  websiteId :: jsval
  sessionId :: string
  apiEndpoint :: jsval
  debug :: bool
  isRunning :: bool
  sendInterval :: "nat option"
  lastDOMSnapshot :: string
  domSnapshotTimeout :: "nat option"
  lastMoveTime :: int
  lastScrollTime :: int

record SDKConfig =
  cfg_websiteId :: jsval
  cfg_apiEndpoint :: jsval
  cfg_debug :: "bool option"

text \<open>The body and address of one \<open>fetch\<close> call.\<close>

record request =
  url :: string
  req_sessionId :: string
  req_websiteId :: jsval
  req_events :: "EventData list"

text \<open>
  How a send ends: \<open>fetch\<close> rejects, or it resolves with a response whose \<open>ok\<close> flag
  and whose body (parseable as JSON or not) are given.
\<close>

datatype fetch_result = Rejected | Response bool bool

text \<open>
  The host: the interval timers and timeouts that are armed, the last timer handle handed
  out (handles are positive), whether the mutation observer is registered, every request
  issued so far, the suspended calls of \<open>sendEvents\<close> (each with its local
  \<open>eventsToSend\<close>), the batches whose send completed without entering the \<open>catch\<close>
  block, and the errors that left a callback uncaught.
\<close>

record host =
  intervals :: "nat set"
  timeouts :: "nat set"
  lastHandle :: nat
  observing :: bool
  requests :: "request list"
  in_flight :: "EventData list list"
  acknowledged :: "EventData list"
  uncaught :: "error list"

record world =
  sdk :: ReplaySDK
  env :: host

text \<open>What a callback reads from \<open>document\<close> and \<open>window\<close> when it runs.\<close>

record page =
  documentElement :: document
  hasBody :: bool
  innerWidth :: int
  innerHeight :: int
  href :: string
  scrollX :: int
  scrollY :: int

definition truthy :: "nat option \<Rightarrow> bool" where
  "truthy h = (case h of None \<Rightarrow> False | Some n \<Rightarrow> n \<noteq> 0)"

text \<open>What a template literal prints for a value.\<close>

fun interpolate :: "jsval \<Rightarrow> string" where
  "interpolate Undefined = ''undefined''"
| "interpolate Null = ''null''"
| "interpolate (Str s) = s"

subsection \<open>Capture\<close>

text \<open>\<open>captureEvent\<close> (lines 174-182).\<close>

definition captureEvent :: "string \<Rightarrow> payload \<Rightarrow> int \<Rightarrow> ReplaySDK \<Rightarrow> ReplaySDK" where
  "captureEvent ty d now s =
     s\<lparr>events := events s @ [\<lparr>type = ty, data = d, timestamp = now\<rparr>]\<rparr>"

text \<open>
  The three listeners of \<open>initializeEventListeners\<close> (lines 124-163). \<open>now\<close> is
  the listener's own reading of \<open>Date.now()\<close>, \<open>ts\<close> the later reading inside
  \<open>captureEvent\<close>. The click listener is given the tag name of the target element.
\<close>

definition on_mousemove :: "int \<Rightarrow> int \<Rightarrow> int \<Rightarrow> int \<Rightarrow> ReplaySDK \<Rightarrow> ReplaySDK" where
  "on_mousemove now ts x y s =
     (if now - lastMoveTime s > 50
      then (captureEvent ''mouseMove'' (MouseMove x y) ts s)\<lparr>lastMoveTime := now\<rparr>
      else s)"

definition on_click :: "int \<Rightarrow> int \<Rightarrow> int \<Rightarrow> string \<Rightarrow> ReplaySDK \<Rightarrow> ReplaySDK" where
  "on_click ts x y tagName s = captureEvent ''click'' (Click x y (toLowerCase tagName)) ts s"

definition on_scroll :: "int \<Rightarrow> int \<Rightarrow> int \<Rightarrow> int \<Rightarrow> ReplaySDK \<Rightarrow> ReplaySDK" where
  "on_scroll now ts sx sy s =
     (if now - lastScrollTime s > 100
      then (captureEvent ''scroll'' (ScrollPos sx sy) ts s)\<lparr>lastScrollTime := now\<rparr>
      else s)"

subsection \<open>Delivery\<close>

text \<open>
  \<open>sendEvents\<close> (lines 184-216) suspends at its \<open>await\<close>. \<open>sendEvents_begin\<close> is
  the part that runs when the call is made, up to the call of \<open>fetch\<close>;
  \<open>sendEvents_resume\<close> is the part that runs once the send has ended, and \<open>requeue\<close>
  is its \<open>catch\<close> block. A response that is \<open>ok\<close> suspends the call a second time at
  \<open>await response.json()\<close>; no field is written between the two awaits, so the two
  resumptions are one step here.
\<close>

definition sendEvents_begin :: "world \<Rightarrow> world" where
  "sendEvents_begin w =
     (if length (events (sdk w)) = 0 then w
      else
        let eventsToSend = events (sdk w);
            req = \<lparr>url = interpolate (apiEndpoint (sdk w)) @ ''/api/events'',
                   req_sessionId = sessionId (sdk w),
                   req_websiteId = websiteId (sdk w),
                   req_events = eventsToSend\<rparr>
        in \<lparr>sdk = (sdk w)\<lparr>events := []\<rparr>,
            env = (env w)\<lparr>requests := requests (env w) @ [req],
                           in_flight := in_flight (env w) @ [eventsToSend]\<rparr>\<rparr>)"

definition requeue :: "EventData list \<Rightarrow> world \<Rightarrow> world" where
  "requeue eventsToSend w = w\<lparr>sdk := (sdk w)\<lparr>events := eventsToSend @ events (sdk w)\<rparr>\<rparr>"

fun sendEvents_resume :: "fetch_result \<Rightarrow> EventData list \<Rightarrow> world \<Rightarrow> world" where
  "sendEvents_resume Rejected eventsToSend w = requeue eventsToSend w"
| "sendEvents_resume (Response ok parseable) eventsToSend w =
     (if \<not> ok then requeue eventsToSend w
      else if \<not> parseable then requeue eventsToSend w
      else w\<lparr>env := (env w)\<lparr>acknowledged := acknowledged (env w) @ eventsToSend\<rparr>\<rparr>)"

subsection \<open>Timers, start and stop\<close>

text \<open>
  \<open>startEventSending\<close> (lines 165-172) and \<open>stop\<close> (lines 218-224). \<open>setInterval\<close>
  hands out a fresh positive handle; \<open>clearInterval\<close> disarms the timer of the handle it
  is given and leaves the field \<open>sendInterval\<close> as it is.
\<close>

definition startEventSending :: "world \<Rightarrow> world" where
  "startEventSending w =
     (let h = Suc (lastHandle (env w))
      in \<lparr>sdk = (sdk w)\<lparr>isRunning := True, sendInterval := Some h\<rparr>,
          env = (env w)\<lparr>intervals := insert h (intervals (env w)), lastHandle := h\<rparr>\<rparr>)"

definition stop :: "world \<Rightarrow> world" where
  "stop w =
     \<lparr>sdk = (sdk w)\<lparr>isRunning := False\<rparr>,
      env = (if truthy (sendInterval (sdk w))
             then (case sendInterval (sdk w) of
                     None \<Rightarrow> env w
                   | Some h \<Rightarrow> (env w)\<lparr>intervals := intervals (env w) - {h}\<rparr>)
             else env w)\<rparr>"

subsection \<open>Snapshots\<close>

definition document_outerHTML :: "dom_api \<Rightarrow> page \<Rightarrow> error + string" where
  "document_outerHTML api pg =
     (case documentElement pg of
        None \<Rightarrow> Inl TypeError
      | Some root \<Rightarrow> Inr (outerHTML api root))"

text \<open>
  \<open>captureInitialState\<close> (lines 35-62) and \<open>handleDOMMutation\<close> (lines 92-112).
  A callback that throws keeps what it had written; the result pairs the state with the
  error thrown, if any. \<open>document.documentElement.outerHTML\<close> raises a
  \<open>TypeError\<close> when the document has no root, and so does \<open>observer.observe\<close> when
  \<open>document.body\<close> is \<open>null\<close>.
\<close>

definition captureInitialState :: "dom_api \<Rightarrow> page \<Rightarrow> int \<Rightarrow> int \<Rightarrow> world \<Rightarrow> world \<times> error option" where
  "captureInitialState api pg t1 t2 w =
     (case document_outerHTML api pg of
        Inl e \<Rightarrow> (w, Some e)
      | Inr raw \<Rightarrow>
          (case sanitizeDOM api raw of
             Inl e \<Rightarrow> (w, Some e)
           | Inr html \<Rightarrow>
               let s1 = captureEvent ''domSnapshot''
                          (DomSnapshot html (innerWidth pg) (innerHeight pg) (href pg)) t1 (sdk w);
                   s2 = captureEvent ''scroll'' (ScrollPos (scrollX pg) (scrollY pg)) t2 s1
               in if hasBody pg
                  then (\<lparr>sdk = s2, env = (env w)\<lparr>observing := True\<rparr>\<rparr>, None)
                  else (w\<lparr>sdk := s2\<rparr>, Some TypeError)))"

definition handleDOMMutation :: "world \<Rightarrow> world" where
  "handleDOMMutation w =
     (let e1 = (if truthy (domSnapshotTimeout (sdk w))
                then (case domSnapshotTimeout (sdk w) of
                        None \<Rightarrow> env w
                      | Some h \<Rightarrow> (env w)\<lparr>timeouts := timeouts (env w) - {h}\<rparr>)
                else env w);
          h' = Suc (lastHandle e1)
      in \<lparr>sdk = (sdk w)\<lparr>domSnapshotTimeout := Some h'\<rparr>,
          env = e1\<lparr>timeouts := insert h' (timeouts e1), lastHandle := h'\<rparr>\<rparr>)"

text \<open>The function passed to \<open>setTimeout\<close> in \<open>handleDOMMutation\<close>.\<close>

definition snapshot_callback :: "dom_api \<Rightarrow> page \<Rightarrow> int \<Rightarrow> ReplaySDK \<Rightarrow> ReplaySDK \<times> error option" where
  "snapshot_callback api pg ts s =
     (case document_outerHTML api pg of
        Inl e \<Rightarrow> (s, Some e)
      | Inr raw \<Rightarrow>
          (case sanitizeDOM api raw of
             Inl e \<Rightarrow> (s, Some e)
           | Inr currentDOM \<Rightarrow>
               if currentDOM \<noteq> lastDOMSnapshot s
               then ((captureEvent ''domSnapshot''
                        (DomSnapshot currentDOM (innerWidth pg) (innerHeight pg) (href pg)) ts s)
                       \<lparr>lastDOMSnapshot := currentDOM\<rparr>, None)
               else (s, None)))"

subsection \<open>Construction\<close>

text \<open>
  The constructor (lines 24-33). The session identifier is drawn at random by
  \<open>generateSessionId\<close> and is a parameter here. The configuration is what the caller
  passes at run time: \<open>None\<close> when it is \<open>undefined\<close> or \<open>null\<close>, otherwise an object
  in which a property may be missing.

  Reading \<open>config.websiteId\<close> on line 25 raises a \<open>TypeError\<close> when there is no
  configuration object. Nothing has been set up by then, no listener and no timer, and no
  session comes to exist: the result is \<open>Inl\<close>. Past that line the listeners are
  registered and the timer is armed before \<open>captureInitialState\<close> runs, so an error
  raised there leaves a session behind: the result is \<open>Inr\<close>, the session paired with the
  error.
\<close>

definition constructor ::
  "dom_api \<Rightarrow> SDKConfig option \<Rightarrow> string \<Rightarrow> page \<Rightarrow> int \<Rightarrow> int \<Rightarrow> host \<Rightarrow>
     error + world \<times> error option" where
  "constructor api config sid pg t1 t2 h =
     (case config of
        None \<Rightarrow> Inl TypeError
      | Some c \<Rightarrow>
          let s0 = \<lparr>events = [], websiteId = cfg_websiteId c, sessionId = sid,
                    apiEndpoint = cfg_apiEndpoint c,
                    debug = (case cfg_debug c of None \<Rightarrow> False | Some b \<Rightarrow> b),
                    isRunning = False, sendInterval = None, lastDOMSnapshot = [],
                    domSnapshotTimeout = None, lastMoveTime = 0, lastScrollTime = 0\<rparr>
          in Inr (captureInitialState api pg t1 t2 (startEventSending \<lparr>sdk = s0, env = h\<rparr>)))"

section \<open>Runs of a session\<close>

text \<open>
  Everything runs on one thread, as callbacks that the host calls one at a time: a
  listener on an input signal, the mutation observer, a timeout or the interval timer that
  fires, a send that ends, and a call of \<open>stop\<close>. An action that the host cannot take in
  a state (a timer that is not armed, a send that is not in flight, an observer that is not
  registered) has no successor.
\<close>

datatype signal =
    MouseMoveSignal int int int int
  | ClickSignal int int int string
  | ScrollSignal int int int int

fun dispatch :: "signal \<Rightarrow> ReplaySDK \<Rightarrow> ReplaySDK" where
  "dispatch (MouseMoveSignal now ts x y) s = on_mousemove now ts x y s"
| "dispatch (ClickSignal ts x y tagName) s = on_click ts x y tagName s"
| "dispatch (ScrollSignal now ts sx sy) s = on_scroll now ts sx sy s"

datatype action =
    Signal signal
  | MutationNotice
  | TimeoutFires nat page int
  | IntervalFires nat
  | FetchSettles nat fetch_result
  | StopCall

definition remove_nth :: "nat \<Rightarrow> 'a list \<Rightarrow> 'a list" where
  "remove_nth i xs = take i xs @ drop (Suc i) xs"

fun step :: "dom_api \<Rightarrow> action \<Rightarrow> world \<Rightarrow> world option" where
  "step api (Signal g) w = Some (w\<lparr>sdk := dispatch g (sdk w)\<rparr>)"
| "step api MutationNotice w =
     (if observing (env w) then Some (handleDOMMutation w) else None)"
| "step api (TimeoutFires h pg ts) w =
     (if h \<in> timeouts (env w)
      then (case snapshot_callback api pg ts (sdk w) of
              (s', err) \<Rightarrow>
                Some \<lparr>sdk = s',
                      env = (env w)\<lparr>timeouts := timeouts (env w) - {h},
                                     uncaught := uncaught (env w) @
                                       (case err of None \<Rightarrow> [] | Some e \<Rightarrow> [e])\<rparr>\<rparr>)
      else None)"
| "step api (IntervalFires h) w =
     (if h \<in> intervals (env w) then Some (sendEvents_begin w) else None)"
| "step api (FetchSettles i r) w =
     (if i < length (in_flight (env w))
      then Some (sendEvents_resume r (in_flight (env w) ! i)
                   (w\<lparr>env := (env w)\<lparr>in_flight := remove_nth i (in_flight (env w))\<rparr>\<rparr>))
      else None)"
| "step api StopCall w = Some (stop w)"

fun run :: "dom_api \<Rightarrow> action list \<Rightarrow> world \<Rightarrow> world option" where
  "run api [] w = Some w"
| "run api (a # as) w = (case step api a w of None \<Rightarrow> None | Some w' \<Rightarrow> run api as w')"

section \<open>Notions used to state the properties\<close>

subsection \<open>Order of delivery\<close>

text \<open>
  Every event the session holds or has handed over, oldest first: the acknowledged
  batches, then the batches in flight, then the queue.
\<close>

definition history :: "world \<Rightarrow> EventData list" where
  "history w = acknowledged (env w) @ concat (in_flight (env w)) @ events (sdk w)"

fun is_capture :: "action \<Rightarrow> bool" where
  "is_capture (Signal g) = True"
| "is_capture (TimeoutFires h pg ts) = True"
| "is_capture a = False"

text \<open>The events that the capturing callbacks of a run append to the queue, in order.\<close>

fun captured_by :: "dom_api \<Rightarrow> action list \<Rightarrow> world \<Rightarrow> EventData list" where
  "captured_by api [] w = []"
| "captured_by api (a # as) w =
     (case step api a w of
        None \<Rightarrow> []
      | Some w' \<Rightarrow>
          (if is_capture a then drop (length (events (sdk w))) (events (sdk w')) else [])
          @ captured_by api as w')"

text \<open>
  A run in which no send begins while another one is in flight: whenever the interval timer
  fires on a queue that is not empty, the send before it has ended.
\<close>

fun begins_send :: "action \<Rightarrow> bool" where
  "begins_send (IntervalFires h) = True"
| "begins_send a = False"

fun serial :: "dom_api \<Rightarrow> action list \<Rightarrow> world \<Rightarrow> bool" where
  "serial api [] w = True"
| "serial api (a # as) w =
     ((begins_send a \<and> events (sdk w) \<noteq> [] \<longrightarrow> in_flight (env w) = []) \<and>
      (case step api a w of None \<Rightarrow> True | Some w' \<Rightarrow> serial api as w'))"

subsection \<open>Throttling\<close>

fun is_move :: "signal \<Rightarrow> bool" where
  "is_move (MouseMoveSignal now ts x y) = True"
| "is_move g = False"

fun is_click :: "signal \<Rightarrow> bool" where
  "is_click (ClickSignal ts x y tagName) = True"
| "is_click g = False"

fun is_scroll :: "signal \<Rightarrow> bool" where
  "is_scroll (ScrollSignal now ts sx sy) = True"
| "is_scroll g = False"

text \<open>The time at which the listener sees the signal.\<close>

fun signal_time :: "signal \<Rightarrow> int" where
  "signal_time (MouseMoveSignal now ts x y) = now"
| "signal_time (ClickSignal ts x y tagName) = ts"
| "signal_time (ScrollSignal now ts sx sy) = now"

fun deliver :: "signal list \<Rightarrow> ReplaySDK \<Rightarrow> ReplaySDK" where
  "deliver [] s = s"
| "deliver (g # gs) s = deliver gs (dispatch g s)"

text \<open>The signals of a sequence whose listener appends an event to the queue.\<close>

fun captures :: "signal list \<Rightarrow> ReplaySDK \<Rightarrow> signal list" where
  "captures [] s = []"
| "captures (g # gs) s =
     (if length (events (dispatch g s)) > length (events s) then [g] else [])
     @ captures gs (dispatch g s)"

definition in_window :: "int \<Rightarrow> int \<Rightarrow> signal \<Rightarrow> bool" where
  "in_window t d g \<longleftrightarrow> t \<le> signal_time g \<and> signal_time g \<le> t + d"

subsection \<open>The flush timer\<close>

text \<open>The only interval timer that can be armed is the one whose handle the session holds.\<close>

definition timer_owned :: "world \<Rightarrow> bool" where
  "timer_owned w \<longleftrightarrow>
     0 \<notin> intervals (env w) \<and>
     intervals (env w) \<subseteq> (case sendInterval (sdk w) of None \<Rightarrow> {} | Some h \<Rightarrow> {h})"

section \<open>Pages to run the model on\<close>

text \<open>
  A serialiser for \<open>outerHTML\<close>, after the serialisation of the HTML standard: the local
  name, each attribute as \<open>name="value"\<close>, then the children and the end tag; no children
  and no end tag for a void element; for a \<open>template\<close>, its template contents in place of
  children. In an attribute value \<open>&\<close> and the double quote are escaped, in text \<open>&\<close>,
  \<open><\<close> and \<open>>\<close>, except in the text of a script, a style and the other elements
  whose text is printed as it is. Only attributes and nodes are printed: the value that a
  script assigned to an input is not. Hosts differ on \<open><\<close> and \<open>>\<close> in attribute
  values and on the text of \<open>noscript\<close>; the pages below have neither.
\<close>

fun escape_attribute :: "string \<Rightarrow> string" where
  "escape_attribute [] = []"
| "escape_attribute (c # cs) =
     (if c = CHR ''&'' then ''&amp;''
      else if c = CHR 0x22 then ''&quot;''
      else [c]) @ escape_attribute cs"

fun escape_text :: "string \<Rightarrow> string" where
  "escape_text [] = []"
| "escape_text (c # cs) =
     (if c = CHR ''&'' then ''&amp;''
      else if c = CHR ''<'' then ''&lt;''
      else if c = CHR ''>'' then ''&gt;''
      else [c]) @ escape_text cs"

definition quoted :: "string \<Rightarrow> string" where
  "quoted s = [CHR 0x22] @ s @ [CHR 0x22]"

fun serialize_attributes :: "(string \<times> string) list \<Rightarrow> string" where
  "serialize_attributes [] = []"
| "serialize_attributes ((n, v) # as) =
     '' '' @ n @ ''='' @ quoted (escape_attribute v) @ serialize_attributes as"

definition void_elements :: "string list" where
  "void_elements =
     [''area'', ''base'', ''basefont'', ''bgsound'', ''br'', ''col'', ''embed'', ''frame'',
      ''hr'', ''img'', ''input'', ''keygen'', ''link'', ''meta'', ''param'', ''source'',
      ''track'', ''wbr'']"

definition raw_text_elements :: "string list" where
  "raw_text_elements =
     [''style'', ''script'', ''xmp'', ''iframe'', ''noembed'', ''noframes'', ''plaintext'']"

fun serialize_in :: "bool \<Rightarrow> node \<Rightarrow> string" where
  "serialize_in raw (Text t) = (if raw then t else escape_text t)"
| "serialize_in raw (Comment t) = ''<!--'' @ t @ ''-->''"
| "serialize_in raw (Element html name as v cs tc) =
     ''<'' @ name @ serialize_attributes as @ ''>'' @
     (if html \<and> name \<in> set void_elements then []
      else (if html \<and> name = ''template''
            then concat (map (serialize_in False) tc)
            else concat (map (serialize_in (html \<and> name \<in> set raw_text_elements)) cs))
           @ ''</'' @ name @ ''>'')"

definition serialize :: "node \<Rightarrow> string" where
  "serialize n = serialize_in False n"

text \<open>
  The tree that the parser yields for a login page with an inline script, a button with a
  click handler and an empty password field, and the parser on the markup of that page.
\<close>

definition login_page :: node where
  "login_page =
     Element True ''html'' [] None
       [Element True ''head'' [] None [] [],
        Element True ''body'' [] None
         [Element True ''script'' [] None [Text ''track()''] [],
          Element True ''button'' [(''onclick'', ''go()''), (''id'', ''b'')] None [Text ''Go''] [],
          Element True ''input'' [(''type'', ''password'')] None [] []] []] []"

text \<open>The markup of the login page, and what \<open>sanitizeDOM\<close> makes of it.\<close>

definition login_markup :: string where
  "login_markup =
     ''<html><head></head><body><script>track()</script><button onclick='' @ quoted ''go()'' @
     '' id='' @ quoted ''b'' @ ''>Go</button><input type='' @ quoted ''password'' @
     ''></body></html>''"

definition login_html :: string where
  "login_html =
     ''<html><head></head><body><button id='' @ quoted ''b'' @ ''>Go</button><input type='' @
     quoted ''password'' @ ''></body></html>''"

definition login_api :: dom_api where
  "login_api = \<lparr>parseFromString = (\<lambda>html. Inr (Some login_page)), outerHTML = serialize\<rparr>"

definition failing_api :: dom_api where
  "failing_api = \<lparr>parseFromString = (\<lambda>html. Inl (HostError ''malformed'')), outerHTML = serialize\<rparr>"

definition login_view :: page where
  "login_view = \<lparr>documentElement = Some login_page, hasBody = True, innerWidth = 800,
                  innerHeight = 600, href = ''https://example.org/login'', scrollX = 0, scrollY = 0\<rparr>"

text \<open>
  The tree that the parser yields for a page whose markup carries a password and a token:
  a script, a button with a click handler, a password field and a hidden field with
  \<open>value\<close> attributes, and a template that holds a script, a button with a click handler
  and a hidden field. \<open>prefilled_markup\<close> is the markup of the page and
  \<open>prefilled_html\<close> what \<open>sanitizeDOM\<close> makes of it.
\<close>

definition prefilled_page :: node where
  "prefilled_page =
     Element True ''html'' [] None
       [Element True ''head'' [] None [] [],
        Element True ''body'' [] None
         [Element True ''script'' [] None [Text ''track()''] [],
          Element True ''button'' [(''onclick'', ''go()''), (''id'', ''b'')] None [Text ''Go''] [],
          Element True ''input'' [(''type'', ''password''), (''value'', ''hunter2'')] None [] [],
          Element True ''input'' [(''type'', ''hidden''), (''value'', ''tok123'')] None [] [],
          Element True ''template'' [] None []
            [Element True ''script'' [] None [Text ''track()''] [],
             Element True ''button'' [(''onclick'', ''go()'')] None [Text ''Go''] [],
             Element True ''input'' [(''type'', ''hidden''), (''value'', ''tok123'')] None [] []]]
         []] []"

definition prefilled_markup :: string where
  "prefilled_markup =
     ''<html><head></head><body><script>track()</script><button onclick='' @ quoted ''go()'' @
     '' id='' @ quoted ''b'' @ ''>Go</button><input type='' @ quoted ''password'' @
     '' value='' @ quoted ''hunter2'' @ ''><input type='' @ quoted ''hidden'' @ '' value='' @
     quoted ''tok123'' @ ''><template><script>track()</script><button onclick='' @
     quoted ''go()'' @ ''>Go</button><input type='' @ quoted ''hidden'' @ '' value='' @
     quoted ''tok123'' @ ''></template></body></html>''"

definition prefilled_html :: string where
  "prefilled_html =
     ''<html><head></head><body><button id='' @ quoted ''b'' @ ''>Go</button><input type='' @
     quoted ''password'' @ '' value='' @ quoted ''hunter2'' @ ''><input type='' @
     quoted ''hidden'' @ '' value='' @ quoted [] @ ''><template><script>track()</script>'' @
     ''<button onclick='' @ quoted ''go()'' @ ''>Go</button><input type='' @ quoted ''hidden'' @
     '' value='' @ quoted ''tok123'' @ ''></template></body></html>''"

definition prefilled_api :: dom_api where
  "prefilled_api = \<lparr>parseFromString = (\<lambda>html. Inr (Some prefilled_page)), outerHTML = serialize\<rparr>"

definition prefilled_view :: page where
  "prefilled_view = \<lparr>documentElement = Some prefilled_page, hasBody = True, innerWidth = 800,
                      innerHeight = 600, href = ''https://example.org/login'',
                      scrollX = 0, scrollY = 0\<rparr>"

definition idle_host :: host where
  "idle_host = \<lparr>intervals = {}, timeouts = {}, lastHandle = 0, observing = False,
                 requests = [], in_flight = [], acknowledged = [], uncaught = []\<rparr>"

definition full_config :: SDKConfig where
  "full_config = \<lparr>cfg_websiteId = Str ''site'', cfg_apiEndpoint = Str ''https://collector.example'',
                   cfg_debug = None\<rparr>"

text \<open>The configuration object \<open>{}\<close>.\<close>

definition empty_config :: SDKConfig where
  "empty_config = \<lparr>cfg_websiteId = Undefined, cfg_apiEndpoint = Undefined, cfg_debug = None\<rparr>"

text \<open>The session that the constructor leaves on the login page.\<close>

definition started :: world where
  "started =
     fst (projr (constructor login_api (Some full_config) ''s1'' login_view 1000 1000 idle_host))"

text \<open>
  Two runs of the started session: one in which a send fails and is retried after it has
  ended, one in which the timer fires again while the first send is still in flight.
\<close>

definition retry_run :: "action list" where
  "retry_run =
     [IntervalFires 1, Signal (ClickSignal 1500 10 20 ''BUTTON''), FetchSettles 0 Rejected,
      Signal (ClickSignal 1600 30 40 ''A''), IntervalFires 1, FetchSettles 0 (Response True True)]"

definition overlapping_run :: "action list" where
  "overlapping_run =
     [IntervalFires 1, Signal (ClickSignal 1500 10 20 ''BUTTON''), IntervalFires 1,
      FetchSettles 0 Rejected, FetchSettles 0 Rejected,
      IntervalFires 1, FetchSettles 0 (Response True True)]"

section \<open>The login page, evaluated\<close>

lemma login_page_markup: "serialize login_page = login_markup"
  by code_simp

lemma login_sanitized: "map_option serialize (sanitize_document (Some login_page)) = Some login_html"
  by code_simp

lemma login_sanitizeDOM: "sanitizeDOM login_api html = Inr login_html"
  using login_sanitized by (auto simp: sanitizeDOM_def login_api_def split: option.splits)

lemma login_outerHTML: "document_outerHTML login_api login_view = Inr login_markup"
  by (simp add: document_outerHTML_def login_api_def login_view_def login_page_markup)

lemma started_eq:
  "started =
     \<lparr>sdk = \<lparr>events =
        [\<lparr>type = ''domSnapshot'',
          data = DomSnapshot login_html 800 600 ''https://example.org/login'',
          timestamp = 1000\<rparr>,
         \<lparr>type = ''scroll'', data = ScrollPos 0 0, timestamp = 1000\<rparr>],
        websiteId = Str ''site'', sessionId = ''s1'',
        apiEndpoint = Str ''https://collector.example'', debug = False,
        isRunning = True, sendInterval = Some 1, lastDOMSnapshot = [],
        domSnapshotTimeout = None, lastMoveTime = 0, lastScrollTime = 0\<rparr>,
      env = \<lparr>intervals = {1}, timeouts = {}, lastHandle = 1, observing = True,
          requests = [], in_flight = [], acknowledged = [], uncaught = []\<rparr>\<rparr>"
  by (simp add: started_def constructor_def captureInitialState_def startEventSending_def
      login_outerHTML login_sanitizeDOM captureEvent_def idle_host_def full_config_def Let_def)
   (simp add: login_view_def)

lemma started_constructed:
  "constructor login_api (Some full_config) ''s1'' login_view 1000 1000 idle_host =
     Inr (started, None)"
  by code_simp

section \<open>Sanitization\<close>

lemma snapshot_callback_cases:
  "snapshot_callback api pg ts s = (s', err) \<Longrightarrow>
     s' = s \<or>
     (\<exists>raw out. document_outerHTML api pg = Inr raw \<and> sanitizeDOM api raw = Inr out \<and>
        out \<noteq> lastDOMSnapshot s \<and> err = None \<and>
        s' = (captureEvent ''domSnapshot''
                (DomSnapshot out (innerWidth pg) (innerHeight pg) (href pg)) ts s)
             \<lparr>lastDOMSnapshot := out\<rparr>)"
  by (auto simp: snapshot_callback_def captureEvent_def split: sum.splits if_splits)

text \<open>
  C4 on a page whose markup carries a password and a token. \<open>sanitizeDOM\<close> removes the
  script and the click handler that the selectors reach and rewrites the \<open>value\<close>
  attribute of the hidden field they reach. For the password field the assignment
  \<open>el.value = ''\<close> sets the value kept beside the attributes, which the serialiser does
  not print: the \<open>value\<close> attribute with the password is still in the string returned.
  Inside the template nothing is touched: its script, its click handler and the token of its
  hidden field are all in the string returned. This string is what the session enqueues at
  start.
\<close>

theorem sanitizeDOM_keeps_password_and_template_contents:
  "document_outerHTML prefilled_api prefilled_view = Inr prefilled_markup \<and>
   sanitize_document (Some prefilled_page) =
     Some (Element True ''html'' [] None
       [Element True ''head'' [] None [] [],
        Element True ''body'' [] None
         [Element True ''button'' [(''id'', ''b'')] None [Text ''Go''] [],
          Element True ''input'' [(''type'', ''password''), (''value'', ''hunter2'')] (Some [])
            [] [],
          Element True ''input'' [(''type'', ''hidden''), (''value'', [])] None [] [],
          Element True ''template'' [] None []
            [Element True ''script'' [] None [Text ''track()''] [],
             Element True ''button'' [(''onclick'', ''go()'')] None [Text ''Go''] [],
             Element True ''input'' [(''type'', ''hidden''), (''value'', ''tok123'')] None [] []]]
         []] []) \<and>
   sanitizeDOM prefilled_api prefilled_markup =
     Inr (''<html><head></head><body><button id='' @ quoted ''b'' @ ''>Go</button><input type='' @
     quoted ''password'' @ '' value='' @ quoted ''hunter2'' @ ''><input type='' @
     quoted ''hidden'' @ '' value='' @ quoted [] @ ''><template><script>track()</script>'' @
     ''<button onclick='' @ quoted ''go()'' @ ''>Go</button><input type='' @ quoted ''hidden'' @
     '' value='' @ quoted ''tok123'' @ ''></template></body></html>'') \<and>
   map_sum id (\<lambda>r. map data (events (sdk (fst r))))
     (constructor prefilled_api (Some full_config) ''s1'' prefilled_view 1000 1000 idle_host) =
     Inr [DomSnapshot prefilled_html 800 600 ''https://example.org/login'', ScrollPos 0 0]"
  by code_simp

section \<open>Flush cycles\<close>

lemma sendEvents_begin_empty: "events (sdk w) = [] \<Longrightarrow> sendEvents_begin w = w"
  by (simp add: sendEvents_begin_def)

lemma sendEvents_begin_nonempty:
  "events (sdk w) \<noteq> [] \<Longrightarrow>
   sendEvents_begin w =
     \<lparr>sdk = (sdk w)\<lparr>events := []\<rparr>,
      env = (env w)\<lparr>requests := requests (env w) @
               [\<lparr>url = interpolate (apiEndpoint (sdk w)) @ ''/api/events'',
                 req_sessionId = sessionId (sdk w), req_websiteId = websiteId (sdk w),
                 req_events = events (sdk w)\<rparr>],
             in_flight := in_flight (env w) @ [events (sdk w)]\<rparr>\<rparr>"
  by (simp add: sendEvents_begin_def Let_def)

lemma sendEvents_resume_env:
  "requests (env (sendEvents_resume r batch w)) = requests (env w)"
  "in_flight (env (sendEvents_resume r batch w)) = in_flight (env w)"
  "intervals (env (sendEvents_resume r batch w)) = intervals (env w)"
  by (cases r; simp add: requeue_def)+

text \<open>
  C3. When the queue is empty, \<open>sendEvents\<close> returns at once: no request is issued, no
  send is left in flight and no field changes. When the queue is not empty, the call issues
  exactly one request, and the part of the call that runs after the send has ended issues
  none.
\<close>

theorem sendEvents_empty_queue_is_no_op:
  "(events (sdk w) = [] \<longrightarrow> sendEvents_begin w = w) \<and>
   (events (sdk w) \<noteq> [] \<longrightarrow>
      length (requests (env (sendEvents_begin w))) = Suc (length (requests (env w)))) \<and>
   requests (env (sendEvents_resume r batch w')) = requests (env w')"
  by (simp add: sendEvents_begin_empty sendEvents_begin_nonempty sendEvents_resume_env)

theorem sendEvents_empty_queue_is_no_op_witness:
  "events (sdk (started\<lparr>sdk := (sdk started)\<lparr>events := []\<rparr>\<rparr>)) = [] \<and>
   sendEvents_begin (started\<lparr>sdk := (sdk started)\<lparr>events := []\<rparr>\<rparr>) =
     started\<lparr>sdk := (sdk started)\<lparr>events := []\<rparr>\<rparr> \<and>
   events (sdk started) \<noteq> [] \<and>
   length (requests (env (sendEvents_begin started))) = 1 \<and>
   requests (env (sendEvents_resume Rejected (events (sdk started)) (sendEvents_begin started))) =
     requests (env (sendEvents_begin started))"
proof -
  let ?idle = "started\<lparr>sdk := (sdk started)\<lparr>events := []\<rparr>\<rparr>"
  have e: "events (sdk ?idle) = []" by simp
  have n: "events (sdk started) \<noteq> []" by (simp add: started_eq)
  have r: "length (requests (env started)) = 0" by (simp add: started_eq)
  from sendEvents_empty_queue_is_no_op[of ?idle Rejected "events (sdk started)" "sendEvents_begin started"] e
  have a: "sendEvents_begin ?idle = ?idle"
    and c: "requests (env (sendEvents_resume Rejected (events (sdk started)) (sendEvents_begin started))) =
     requests (env (sendEvents_begin started))"
    by blast+
  from sendEvents_empty_queue_is_no_op[of started Rejected "[]" started] n r
  have b: "length (requests (env (sendEvents_begin started))) = 1" by simp
  show ?thesis using e a n b c by blast
qed

text \<open>
  C9. A response with a success status whose body does not parse as JSON takes the
  \<open>catch\<close> branch: the batch goes back to the head of the queue, in front of what was
  enqueued during the send, it is not counted as acknowledged, and the next flush posts it
  again, followed by the events enqueued since.
\<close>

theorem unparseable_success_response_requeues:
  "sendEvents_resume (Response True False) batch w = requeue batch w \<and>
   events (sdk (sendEvents_resume (Response True False) batch w)) = batch @ events (sdk w) \<and>
   acknowledged (env (sendEvents_resume (Response True False) batch w)) = acknowledged (env w) \<and>
   (batch \<noteq> [] \<longrightarrow>
      requests (env (sendEvents_begin (sendEvents_resume (Response True False) batch w))) =
        requests (env w) @
          [\<lparr>url = interpolate (apiEndpoint (sdk w)) @ ''/api/events'',
            req_sessionId = sessionId (sdk w), req_websiteId = websiteId (sdk w),
            req_events = batch @ events (sdk w)\<rparr>]) \<and>
   (events (sdk w) \<noteq> [] \<longrightarrow>
      map req_events (requests (env (sendEvents_begin
        (sendEvents_resume (Response True False) (events (sdk w)) (sendEvents_begin w))))) =
        map req_events (requests (env w)) @ [events (sdk w), events (sdk w)])"
  by (simp add: requeue_def sendEvents_begin_nonempty)

theorem unparseable_success_response_requeues_witness:
  "events (sdk started) \<noteq> [] \<and>
   map type (events (sdk (sendEvents_resume (Response True False) (events (sdk started))
      started))) = [''domSnapshot'', ''scroll'', ''domSnapshot'', ''scroll''] \<and>
   map (map type \<circ> req_events) (requests (env (sendEvents_begin
        (sendEvents_resume (Response True False) (events (sdk started))
           (sendEvents_begin started))))) =
     [[''domSnapshot'', ''scroll''], [''domSnapshot'', ''scroll'']]"
proof -
  have n: "events (sdk started) \<noteq> []" by (simp add: started_eq)
  have r: "requests (env started) = []" by (simp add: started_eq)
  have t: "map type (events (sdk started)) = [''domSnapshot'', ''scroll'']"
    by (simp add: started_eq)
  from unparseable_success_response_requeues[of "events (sdk started)" started] n r
  have a: "events (sdk (sendEvents_resume (Response True False) (events (sdk started)) started)) =
      events (sdk started) @ events (sdk started)"
    and b: "map req_events (requests (env (sendEvents_begin
        (sendEvents_resume (Response True False) (events (sdk started))
           (sendEvents_begin started))))) = [events (sdk started), events (sdk started)]"
    by simp_all
  have "map (map type \<circ> req_events) (requests (env (sendEvents_begin
        (sendEvents_resume (Response True False) (events (sdk started))
           (sendEvents_begin started))))) =
     map (map type) [events (sdk started), events (sdk started)]"
    unfolding b[symmetric] by simp
  then show ?thesis using n a t by simp
qed




section \<open>Stopping\<close>

lemma dispatch_frame:
  "sendInterval (dispatch g s) = sendInterval s"
  "isRunning (dispatch g s) = isRunning s"
  "domSnapshotTimeout (dispatch g s) = domSnapshotTimeout s"
  by (cases g; simp add: on_mousemove_def on_click_def on_scroll_def captureEvent_def)+

lemma snapshot_callback_frame:
  "snapshot_callback api pg ts s = (s', err) \<Longrightarrow>
     sendInterval s' = sendInterval s \<and> isRunning s' = isRunning s \<and>
     domSnapshotTimeout s' = domSnapshotTimeout s \<and> length (events s) \<le> length (events s')"
  by (auto simp: snapshot_callback_def captureEvent_def split: sum.splits if_splits)

lemma sendEvents_resume_frame:
  "sendInterval (sdk (sendEvents_resume r batch w)) = sendInterval (sdk w)"
  "isRunning (sdk (sendEvents_resume r batch w)) = isRunning (sdk w)"
  "length (events (sdk w)) \<le> length (events (sdk (sendEvents_resume r batch w)))"
  by (cases r; simp add: requeue_def)+

lemma sendEvents_begin_frame:
  "sendInterval (sdk (sendEvents_begin w)) = sendInterval (sdk w)"
  "isRunning (sdk (sendEvents_begin w)) = isRunning (sdk w)"
  "intervals (env (sendEvents_begin w)) = intervals (env w)"
  by (simp_all add: sendEvents_begin_def Let_def)

lemma handleDOMMutation_frame:
  "sendInterval (sdk (handleDOMMutation w)) = sendInterval (sdk w)"
  "intervals (env (handleDOMMutation w)) = intervals (env w)"
  "events (sdk (handleDOMMutation w)) = events (sdk w)"
  "requests (env (handleDOMMutation w)) = requests (env w)"
  by (simp_all add: handleDOMMutation_def Let_def split: option.splits)

lemma stop_frame:
  "sdk (stop w) = (sdk w)\<lparr>isRunning := False\<rparr>"
  "intervals (env (stop w)) \<subseteq> intervals (env w)"
  "env (stop w) = (env w)\<lparr>intervals := intervals (env (stop w))\<rparr>"
  by (auto simp: stop_def split: option.splits)

lemma step_intervals:
  assumes "step api a w = Some w'"
  shows "intervals (env w') \<subseteq> intervals (env w) \<and> sendInterval (sdk w') = sendInterval (sdk w)"
proof (cases a)
  case (Signal g)
  with assms show ?thesis by (auto simp: dispatch_frame)
next
  case MutationNotice
  with assms show ?thesis by (auto simp: handleDOMMutation_frame split: if_splits)
next
  case (TimeoutFires h pg ts)
  with assms show ?thesis
    by (auto split: if_splits prod.splits dest: snapshot_callback_frame)
next
  case (IntervalFires h)
  with assms show ?thesis
    by (auto simp: sendEvents_begin_frame split: if_splits)
next
  case (FetchSettles i r)
  with assms show ?thesis
    by (auto simp: sendEvents_resume_env sendEvents_resume_frame split: if_splits)
next
  case StopCall
  with assms stop_frame[of w] show ?thesis by auto
qed

lemma timer_owned_step: "timer_owned w \<Longrightarrow> step api a w = Some w' \<Longrightarrow> timer_owned w'"
  using step_intervals[of api a w w'] by (auto simp: timer_owned_def)

lemma timer_owned_run: "timer_owned w \<Longrightarrow> run api as w = Some w' \<Longrightarrow> timer_owned w'"
  by (induction as arbitrary: w) (auto split: option.splits dest: timer_owned_step)

lemma captureInitialState_frame:
  "captureInitialState api pg t1 t2 w = (w', err) \<Longrightarrow>
     intervals (env w') = intervals (env w) \<and> sendInterval (sdk w') = sendInterval (sdk w) \<and>
     isRunning (sdk w') = isRunning (sdk w) \<and> websiteId (sdk w') = websiteId (sdk w) \<and>
     apiEndpoint (sdk w') = apiEndpoint (sdk w)"
  by (auto simp: captureInitialState_def captureEvent_def Let_def split: sum.splits if_splits)

lemma constructor_frame:
  assumes "constructor api config sid pg t1 t2 h = Inr (w, err)"
  shows "isRunning (sdk w) \<and> sendInterval (sdk w) = Some (Suc (lastHandle h)) \<and>
     intervals (env w) = insert (Suc (lastHandle h)) (intervals h) \<and>
     (\<exists>c. config = Some c \<and> websiteId (sdk w) = cfg_websiteId c \<and>
        apiEndpoint (sdk w) = cfg_apiEndpoint c)"
proof (cases config)
  case None
  with assms show ?thesis by (simp add: constructor_def)
next
  case (Some c)
  let ?w0 = "startEventSending
          \<lparr>sdk = \<lparr>events = [], websiteId = cfg_websiteId c, sessionId = sid,
                   apiEndpoint = cfg_apiEndpoint c,
                   debug = (case cfg_debug c of None \<Rightarrow> False | Some b \<Rightarrow> b),
                   isRunning = False, sendInterval = None, lastDOMSnapshot = [],
                   domSnapshotTimeout = None, lastMoveTime = 0, lastScrollTime = 0\<rparr>,
           env = h\<rparr>"
  from assms Some have ci: "captureInitialState api pg t1 t2 ?w0 = (w, err)"
    by (simp add: constructor_def Let_def)
  from captureInitialState_frame[OF ci] Some show ?thesis
    by (simp add: startEventSending_def Let_def)
qed

lemma timer_owned_constructor:
  assumes "intervals h = {}" and "constructor api config sid pg t1 t2 h = Inr (w, err)"
  shows "timer_owned w"
  using constructor_frame[OF assms(2)] assms(1) by (simp add: timer_owned_def)

lemma stop_disarms: "timer_owned w \<Longrightarrow> intervals (env (stop w)) = {}"
  by (auto simp: timer_owned_def stop_def truthy_def split: option.splits)

lemma stop_idempotent: "stop (stop w) = stop w"
  by (auto simp: stop_def truthy_def split: option.splits)

lemma stop_without_timer: "intervals (env w) = {} \<Longrightarrow> env (stop w) = env w"
  by (auto simp: stop_def split: option.splits)


text \<open>
  C8. \<open>stop\<close> clears the running flag and changes no other field of the session; it
  issues no request and leaves the queue, the sends in flight and the acknowledged batches
  as they are. In every state reached from a constructed session it leaves no interval
  timer armed. Called again, or called when no timer is armed, it changes nothing further.
\<close>

theorem stop_cancels_timer_keeps_queue:
  "sdk (stop w) = (sdk w)\<lparr>isRunning := False\<rparr> \<and>
   \<not> isRunning (sdk (stop w)) \<and>
   events (sdk (stop w)) = events (sdk w) \<and>
   requests (env (stop w)) = requests (env w) \<and>
   in_flight (env (stop w)) = in_flight (env w) \<and>
   acknowledged (env (stop w)) = acknowledged (env w) \<and>
   stop (stop w) = stop w \<and>
   (intervals (env w) = {} \<longrightarrow> env (stop w) = env w) \<and>
   (timer_owned w \<longrightarrow> intervals (env (stop w)) = {}) \<and>
   (intervals h = {} \<and> constructor api config sid pg t1 t2 h = Inr (w0, err) \<and>
    run api acts w0 = Some w \<longrightarrow> intervals (env (stop w)) = {})"
proof -
  have "intervals (env (stop w)) = {}"
    if "intervals h = {}" "constructor api config sid pg t1 t2 h = Inr (w0, err)"
      "run api acts w0 = Some w"
    using stop_disarms[OF timer_owned_run[OF timer_owned_constructor[OF that(1,2)] that(3)]] .
  moreover have "requests (env (stop w)) = requests (env w)"
    "in_flight (env (stop w)) = in_flight (env w)"
    "acknowledged (env (stop w)) = acknowledged (env w)"
    by (simp_all add: stop_def split: option.splits)
  ultimately show ?thesis
    using stop_frame(1)[of w] stop_idempotent[of w] stop_without_timer[of w] stop_disarms[of w]
    by simp
qed

theorem stop_cancels_timer_keeps_queue_witness:
  "intervals (env started) = {1} \<and> intervals (env (stop started)) = {} \<and>
   events (sdk (stop started)) = events (sdk started) \<and>
   env (stop (stop started)) = env (stop started) \<and>
   constructor login_api (Some full_config) ''s1'' login_view 1000 1000 idle_host =
     Inr (started, None) \<and>
   map_option (\<lambda>w. intervals (env (stop w)))
     (run login_api [Signal (ClickSignal 1500 1 2 ''DIV'')] started) = Some {}"
proof -
  have o: "timer_owned started" by (simp add: timer_owned_def started_eq)
  have i: "intervals (env started) = {1}" by (simp add: started_eq)
  have h: "intervals idle_host = {}" by (simp add: idle_host_def)
  let ?w = "started\<lparr>sdk := dispatch (ClickSignal 1500 1 2 ''DIV'') (sdk started)\<rparr>"
  have r: "run login_api [Signal (ClickSignal 1500 1 2 ''DIV'')] started = Some ?w" by simp
  from stop_cancels_timer_keeps_queue[of started] o
  have a: "intervals (env (stop started)) = {}"
    "events (sdk (stop started)) = events (sdk started)"
    by simp_all
  from stop_cancels_timer_keeps_queue[of "stop started"] a(1)
  have b: "env (stop (stop started)) = env (stop started)" by simp
  from stop_cancels_timer_keeps_queue[where w = ?w and h = idle_host and api = login_api
      and config = "Some full_config" and sid = "''s1''" and pg = login_view and ?t1.0 = 1000
      and ?t2.0 = 1000 and ?w0.0 = started and err = None
      and acts = "[Signal (ClickSignal 1500 1 2 ''DIV'')]"] h started_constructed r
  have d: "intervals (env (stop ?w)) = {}" by blast
  show ?thesis using i a b d started_constructed r by simp
qed

section \<open>Capture after \<open>stop\<close>\<close>

lemma dispatch_isRunning:
  "dispatch g (s\<lparr>isRunning := b\<rparr>) = (dispatch g s)\<lparr>isRunning := b\<rparr>"
  by (cases g) (simp_all add: on_mousemove_def on_click_def on_scroll_def captureEvent_def)

lemma snapshot_callback_isRunning:
  "snapshot_callback api pg ts (s\<lparr>isRunning := b\<rparr>) =
     (case snapshot_callback api pg ts s of (s', err) \<Rightarrow> (s'\<lparr>isRunning := b\<rparr>, err))"
  by (simp add: snapshot_callback_def captureEvent_def split: sum.splits)

lemma handleDOMMutation_isRunning:
  "handleDOMMutation (w\<lparr>sdk := (sdk w)\<lparr>isRunning := b\<rparr>\<rparr>) =
     (handleDOMMutation w)\<lparr>sdk := (sdk (handleDOMMutation w))\<lparr>isRunning := b\<rparr>\<rparr>"
  by (simp add: handleDOMMutation_def Let_def split: option.splits)

lemma sendEvents_begin_isRunning:
  "sendEvents_begin (w\<lparr>sdk := (sdk w)\<lparr>isRunning := b\<rparr>\<rparr>) =
     (sendEvents_begin w)\<lparr>sdk := (sdk (sendEvents_begin w))\<lparr>isRunning := b\<rparr>\<rparr>"
  by (simp add: sendEvents_begin_def Let_def)

lemma sendEvents_resume_isRunning:
  "sendEvents_resume r batch (w\<lparr>sdk := (sdk w)\<lparr>isRunning := b\<rparr>\<rparr>) =
     (sendEvents_resume r batch w)\<lparr>sdk := (sdk (sendEvents_resume r batch w))\<lparr>isRunning := b\<rparr>\<rparr>"
  by (cases r) (simp_all add: requeue_def)

lemma step_isRunning:
  assumes "a \<noteq> StopCall"
  shows "step api a (w\<lparr>sdk := (sdk w)\<lparr>isRunning := b\<rparr>\<rparr>) =
     map_option (\<lambda>w'. w'\<lparr>sdk := (sdk w')\<lparr>isRunning := b\<rparr>\<rparr>) (step api a w)"
proof (cases a)
  case (Signal g)
  then show ?thesis by (simp add: dispatch_isRunning)
next
  case MutationNotice
  then show ?thesis by (simp add: handleDOMMutation_isRunning)
next
  case (TimeoutFires h pg ts)
  then show ?thesis by (simp add: snapshot_callback_isRunning split: prod.splits)
next
  case (IntervalFires h)
  then show ?thesis by (simp add: sendEvents_begin_isRunning)
next
  case (FetchSettles i r)
  then show ?thesis
    by (cases r) (simp_all add: requeue_def)
next
  case StopCall
  with assms show ?thesis by simp
qed

lemma stop_as_updates:
  "stop w = w\<lparr>sdk := (sdk w)\<lparr>isRunning := False\<rparr>,
              env := (env w)\<lparr>intervals := intervals (env (stop w))\<rparr>\<rparr>"
  by (simp add: stop_def split: option.splits)

text \<open>A capturing callback does the same with and without a \<open>stop\<close> before it.\<close>

lemma step_after_stop:
  assumes "is_capture a \<or> a = MutationNotice"
  shows "step api a (stop w) = map_option stop (step api a w)"
proof (cases a)
  case (Signal g)
  then show ?thesis
    by (simp add: stop_def dispatch_isRunning dispatch_frame split: option.splits)
next
  case MutationNotice
  then show ?thesis
    by (auto simp: stop_def handleDOMMutation_def Let_def truthy_def split: option.splits)
next
  case (TimeoutFires h pg ts)
  obtain s' err where cb: "snapshot_callback api pg ts (sdk w) = (s', err)"
    by (cases "snapshot_callback api pg ts (sdk w)")
  from snapshot_callback_frame[OF cb] cb TimeoutFires show ?thesis
    by (auto simp: stop_def snapshot_callback_isRunning split: option.splits)
next
  case (IntervalFires h)
  with assms show ?thesis by simp
next
  case (FetchSettles i r)
  with assms show ?thesis by simp
next
  case StopCall
  with assms show ?thesis by simp
qed


lemma dispatch_grows: "length (events s) \<le> length (events (dispatch g s))"
  by (cases g) (simp_all add: on_mousemove_def on_click_def on_scroll_def captureEvent_def)

text \<open>With no interval timer armed, no step shortens the queue or issues a request.\<close>

lemma step_without_timer:
  assumes "intervals (env w) = {}" and "step api a w = Some w'"
  shows "intervals (env w') = {} \<and> length (events (sdk w)) \<le> length (events (sdk w')) \<and>
         requests (env w') = requests (env w)"
proof (cases a)
  case (Signal g)
  with assms show ?thesis by (auto simp: dispatch_grows)
next
  case MutationNotice
  with assms show ?thesis by (auto simp: handleDOMMutation_frame split: if_splits)
next
  case (TimeoutFires h pg ts)
  with assms show ?thesis
    by (auto split: if_splits prod.splits dest: snapshot_callback_frame)
next
  case (IntervalFires h)
  with assms show ?thesis by simp
next
  case (FetchSettles i r)
  with assms sendEvents_resume_frame(3)[of
      "w\<lparr>env := (env w)\<lparr>in_flight := remove_nth i (in_flight (env w))\<rparr>\<rparr>" r
      "in_flight (env w) ! i"]
  show ?thesis
    by (auto simp: sendEvents_resume_env split: if_splits)
next
  case StopCall
  with assms stop_frame[of w] show ?thesis by (auto simp: stop_without_timer)
qed

lemma run_without_timer:
  "intervals (env w) = {} \<Longrightarrow> run api as w = Some w' \<Longrightarrow>
     intervals (env w') = {} \<and> length (events (sdk w)) \<le> length (events (sdk w')) \<and>
     requests (env w') = requests (env w)"
proof (induction as arbitrary: w)
  case Nil
  then show ?case by simp
next
  case (Cons a as)
  from Cons.prems(2) obtain w1 where s: "step api a w = Some w1" and r: "run api as w1 = Some w'"
    by (auto split: option.splits)
  from step_without_timer[OF Cons.prems(1) s] Cons.IH[OF _ r] show ?case by auto
qed

lemma run_clicks:
  "\<exists>w'. run api (replicate n (Signal (ClickSignal ts x y tg))) w = Some w' \<and>
        length (events (sdk w')) = length (events (sdk w)) + n"
proof (induction n arbitrary: w)
  case 0
  then show ?case by simp
next
  case (Suc n)
  let ?w1 = "w\<lparr>sdk := dispatch (ClickSignal ts x y tg) (sdk w)\<rparr>"
  have l: "length (events (sdk ?w1)) = Suc (length (events (sdk w)))"
    by (simp add: on_click_def captureEvent_def)
  from Suc[of ?w1] l show ?case by auto
qed

lemma snapshot_after_mutation:
  assumes "observing (env w)"
    and "document_outerHTML api pg = Inr raw" and "sanitizeDOM api raw = Inr out"
    and "out \<noteq> lastDOMSnapshot (sdk w)"
  shows "map_option (events \<circ> sdk)
           (run api [MutationNotice, TimeoutFires (Suc (lastHandle (env w))) pg ts] w) =
         Some (events (sdk w) @
           [\<lparr>type = ''domSnapshot'',
             data = DomSnapshot out (innerWidth pg) (innerHeight pg) (href pg),
             timestamp = ts\<rparr>])"
proof -
  let ?w1 = "handleDOMMutation w"
  have t: "Suc (lastHandle (env w)) \<in> timeouts (env ?w1)"
    and l: "lastDOMSnapshot (sdk ?w1) = lastDOMSnapshot (sdk w)"
    and e: "events (sdk ?w1) = events (sdk w)"
    by (simp_all add: handleDOMMutation_def Let_def split: option.splits)
  have cb: "snapshot_callback api pg ts (sdk ?w1) =
      ((sdk ?w1)\<lparr>events := events (sdk w) @
           [\<lparr>type = ''domSnapshot'',
             data = DomSnapshot out (innerWidth pg) (innerHeight pg) (href pg),
             timestamp = ts\<rparr>],
         lastDOMSnapshot := out\<rparr>, None)"
    using assms(2,3,4) by (simp add: snapshot_callback_def captureEvent_def l e)
  show ?thesis using assms(1) t by (simp add: cb)
qed

lemma stop_keeps_capture_state:
  "observing (env (stop w)) = observing (env w)"
  "lastHandle (env (stop w)) = lastHandle (env w)"
  "lastDOMSnapshot (sdk (stop w)) = lastDOMSnapshot (sdk w)"
  "lastMoveTime (sdk (stop w)) = lastMoveTime (sdk w)"
  "lastScrollTime (sdk (stop w)) = lastScrollTime (sdk w)"
  "events (sdk (stop w)) = events (sdk w)"
  by (simp_all add: stop_def split: option.splits)

text \<open>
  C10. No callback reads the running flag: every action other than \<open>stop\<close> does the
  same whatever the flag holds, and the three listeners, the mutation observer and the
  snapshot timeout do after \<open>stop\<close> what they do without it. After \<open>stop\<close> each
  capture path still appends its event to the queue: a click always; a pointer move more
  than 50 ms, and a scroll more than 100 ms, after the last one captured; and a mutation
  notice followed by its debounce timeout, whenever the sanitized document differs from the
  last snapshot recorded. \<open>n\<close> clicks after \<open>stop\<close> make the queue \<open>n\<close> events
  longer, for every \<open>n\<close>. In a session whose flush timer \<open>stop\<close> has cancelled, no
  later action shortens the queue or issues a request.
\<close>

theorem capture_continues_after_stop:
  "(a \<noteq> StopCall \<longrightarrow>
      step api a (w\<lparr>sdk := (sdk w)\<lparr>isRunning := b\<rparr>\<rparr>) =
        map_option (\<lambda>w'. w'\<lparr>sdk := (sdk w')\<lparr>isRunning := b\<rparr>\<rparr>) (step api a w)) \<and>
   (is_capture a \<or> a = MutationNotice \<longrightarrow>
      step api a (stop w) = map_option stop (step api a w)) \<and>
   map_option (events \<circ> sdk) (step api (Signal (ClickSignal ts x y tg)) (stop w)) =
     Some (events (sdk w) @
       [\<lparr>type = ''click'', data = Click x y (toLowerCase tg), timestamp = ts\<rparr>]) \<and>
   (now - lastMoveTime (sdk w) > 50 \<longrightarrow>
      map_option (events \<circ> sdk) (step api (Signal (MouseMoveSignal now ts x y)) (stop w)) =
        Some (events (sdk w) @
          [\<lparr>type = ''mouseMove'', data = MouseMove x y, timestamp = ts\<rparr>])) \<and>
   (now - lastScrollTime (sdk w) > 100 \<longrightarrow>
      map_option (events \<circ> sdk) (step api (Signal (ScrollSignal now ts x y)) (stop w)) =
        Some (events (sdk w) @
          [\<lparr>type = ''scroll'', data = ScrollPos x y, timestamp = ts\<rparr>])) \<and>
   (observing (env w) \<and> document_outerHTML api pg = Inr raw \<and> sanitizeDOM api raw = Inr out \<and>
    out \<noteq> lastDOMSnapshot (sdk w) \<longrightarrow>
      map_option (events \<circ> sdk)
        (run api [MutationNotice, TimeoutFires (Suc (lastHandle (env w))) pg ts] (stop w)) =
        Some (events (sdk w) @
          [\<lparr>type = ''domSnapshot'',
            data = DomSnapshot out (innerWidth pg) (innerHeight pg) (href pg),
            timestamp = ts\<rparr>])) \<and>
   (\<exists>w'. run api (replicate n (Signal (ClickSignal ts x y tg))) (stop w) = Some w' \<and>
      length (events (sdk w')) = length (events (sdk w)) + n) \<and>
   (timer_owned w \<and> run api acts (stop w) = Some w'' \<longrightarrow>
      length (events (sdk w)) \<le> length (events (sdk w'')) \<and>
      requests (env w'') = requests (env w) \<and> intervals (env w'') = {})"
proof (intro conjI impI)
  assume "a \<noteq> StopCall"
  then show "step api a (w\<lparr>sdk := (sdk w)\<lparr>isRunning := b\<rparr>\<rparr>) =
        map_option (\<lambda>w'. w'\<lparr>sdk := (sdk w')\<lparr>isRunning := b\<rparr>\<rparr>) (step api a w)"
    by (rule step_isRunning)
next
  assume "is_capture a \<or> a = MutationNotice"
  then show "step api a (stop w) = map_option stop (step api a w)"
    by (rule step_after_stop)
next
  show "map_option (events \<circ> sdk) (step api (Signal (ClickSignal ts x y tg)) (stop w)) =
     Some (events (sdk w) @
       [\<lparr>type = ''click'', data = Click x y (toLowerCase tg), timestamp = ts\<rparr>])"
    by (simp add: on_click_def captureEvent_def stop_frame(1))
next
  assume "now - lastMoveTime (sdk w) > 50"
  then show "map_option (events \<circ> sdk)
      (step api (Signal (MouseMoveSignal now ts x y)) (stop w)) =
      Some (events (sdk w) @ [\<lparr>type = ''mouseMove'', data = MouseMove x y, timestamp = ts\<rparr>])"
    by (simp add: on_mousemove_def captureEvent_def stop_frame(1))
next
  assume "now - lastScrollTime (sdk w) > 100"
  then show "map_option (events \<circ> sdk)
      (step api (Signal (ScrollSignal now ts x y)) (stop w)) =
      Some (events (sdk w) @ [\<lparr>type = ''scroll'', data = ScrollPos x y, timestamp = ts\<rparr>])"
    by (simp add: on_scroll_def captureEvent_def stop_frame(1))
next
  assume a: "observing (env w) \<and> document_outerHTML api pg = Inr raw \<and>
    sanitizeDOM api raw = Inr out \<and> out \<noteq> lastDOMSnapshot (sdk w)"
  from snapshot_after_mutation[of "stop w" api pg raw out ts] a
  show "map_option (events \<circ> sdk)
        (run api [MutationNotice, TimeoutFires (Suc (lastHandle (env w))) pg ts] (stop w)) =
        Some (events (sdk w) @
          [\<lparr>type = ''domSnapshot'',
            data = DomSnapshot out (innerWidth pg) (innerHeight pg) (href pg),
            timestamp = ts\<rparr>])"
    by (simp only: stop_keeps_capture_state simp_thms)
next
  from run_clicks[of api n ts x y tg "stop w"]
  show "\<exists>w'. run api (replicate n (Signal (ClickSignal ts x y tg))) (stop w) = Some w' \<and>
      length (events (sdk w')) = length (events (sdk w)) + n"
    by (simp add: stop_frame(1))
next
  assume a: "timer_owned w \<and> run api acts (stop w) = Some w''"
  then have d: "intervals (env (stop w)) = {}" by (simp add: stop_disarms)
  from run_without_timer[OF d] a
  have r: "intervals (env w'') = {} \<and> length (events (sdk (stop w))) \<le> length (events (sdk w'')) \<and>
      requests (env w'') = requests (env (stop w))"
    by blast
  have q: "requests (env (stop w)) = requests (env w)"
    by (simp add: stop_def split: option.splits)
  from r q show "length (events (sdk w)) \<le> length (events (sdk w''))"
    by (simp add: stop_frame(1))
  from r q show "requests (env w'') = requests (env w)" by simp
  from r show "intervals (env w'') = {}" by simp
qed

theorem capture_continues_after_stop_witness:
  "timer_owned started \<and> observing (env started) \<and>
   step login_api (Signal (MouseMoveSignal 2000 2001 5 6)) (stop started) =
     map_option stop (step login_api (Signal (MouseMoveSignal 2000 2001 5 6)) started) \<and>
   map_option (events \<circ> sdk)
     (step login_api (Signal (MouseMoveSignal 2000 2001 5 6)) (stop started)) =
     Some (events (sdk started) @
       [\<lparr>type = ''mouseMove'', data = MouseMove 5 6, timestamp = 2001\<rparr>]) \<and>
   map_option (events \<circ> sdk)
     (step login_api (Signal (ScrollSignal 2000 2001 5 6)) (stop started)) =
     Some (events (sdk started) @
       [\<lparr>type = ''scroll'', data = ScrollPos 5 6, timestamp = 2001\<rparr>]) \<and>
   map_option (events \<circ> sdk)
     (run login_api [MutationNotice, TimeoutFires 2 login_view 2001] (stop started)) =
     Some (events (sdk started) @
       [\<lparr>type = ''domSnapshot'',
         data = DomSnapshot login_html 800 600 ''https://example.org/login'',
         timestamp = 2001\<rparr>]) \<and>
   (\<exists>w'. run login_api (replicate 3 (Signal (ClickSignal 2001 5 6 ''DIV''))) (stop started) =
       Some w' \<and> length (events (sdk w')) = 5) \<and>
   run login_api [Signal (ClickSignal 1500 1 2 ''DIV'')] (stop started) =
     Some ((stop started)\<lparr>sdk := on_click 1500 1 2 ''DIV'' (sdk (stop started))\<rparr>) \<and>
   requests (env ((stop started)\<lparr>sdk := on_click 1500 1 2 ''DIV'' (sdk (stop started))\<rparr>)) = []"
proof -
  let ?a = "Signal (MouseMoveSignal 2000 2001 5 6)"
  let ?w2 = "(stop started)\<lparr>sdk := on_click 1500 1 2 ''DIV'' (sdk (stop started))\<rparr>"
  have o: "timer_owned started" by (simp add: timer_owned_def started_eq)
  have ob: "observing (env started)" by (simp add: started_eq)
  have c: "is_capture ?a \<or> ?a = MutationNotice" by simp
  have r: "run login_api [Signal (ClickSignal 1500 1 2 ''DIV'')] (stop started) = Some ?w2"
    by simp
  have l: "length (events (sdk started)) = 2" by (simp add: started_eq)
  have q: "requests (env started) = []" by (simp add: started_eq)
  have mv: "2000 - lastMoveTime (sdk started) > 50" by (simp add: started_eq)
  have sc: "2000 - lastScrollTime (sdk started) > 100" by (simp add: started_eq)
  have ne: "login_html \<noteq> lastDOMSnapshot (sdk started)"
    by (simp add: started_eq login_html_def)
  have lh: "Suc (lastHandle (env started)) = 2" by (simp add: started_eq)
  have pv: "innerWidth login_view = 800" "innerHeight login_view = 600"
    "href login_view = ''https://example.org/login''"
    by (simp_all add: login_view_def)
  note t = capture_continues_after_stop[where a = ?a and api = login_api and w = started
      and b = False and now = 2000 and ts = 2001 and x = 5 and y = 6 and tg = "''DIV''"
      and n = 3 and pg = login_view and raw = login_markup and out = login_html
      and acts = "[Signal (ClickSignal 1500 1 2 ''DIV'')]" and w'' = ?w2]
  from t c have 1: "step login_api ?a (stop started) = map_option stop (step login_api ?a started)"
    by blast
  from t mv have 2: "map_option (events \<circ> sdk) (step login_api ?a (stop started)) =
     Some (events (sdk started) @
       [\<lparr>type = ''mouseMove'', data = MouseMove 5 6, timestamp = 2001\<rparr>])"
    by blast
  from t sc have 3: "map_option (events \<circ> sdk)
     (step login_api (Signal (ScrollSignal 2000 2001 5 6)) (stop started)) =
     Some (events (sdk started) @
       [\<lparr>type = ''scroll'', data = ScrollPos 5 6, timestamp = 2001\<rparr>])"
    by blast
  from t ob login_outerHTML login_sanitizeDOM[of login_markup] ne
  have "map_option (events \<circ> sdk)
     (run login_api [MutationNotice, TimeoutFires (Suc (lastHandle (env started))) login_view 2001]
        (stop started)) =
     Some (events (sdk started) @
       [\<lparr>type = ''domSnapshot'',
         data = DomSnapshot login_html (innerWidth login_view) (innerHeight login_view)
           (href login_view),
         timestamp = 2001\<rparr>])"
    by blast
  then have 4: "map_option (events \<circ> sdk)
     (run login_api [MutationNotice, TimeoutFires 2 login_view 2001] (stop started)) =
     Some (events (sdk started) @
       [\<lparr>type = ''domSnapshot'',
         data = DomSnapshot login_html 800 600 ''https://example.org/login'',
         timestamp = 2001\<rparr>])"
    unfolding lh pv .
  from t l have 5: "\<exists>w'. run login_api (replicate 3 (Signal (ClickSignal 2001 5 6 ''DIV'')))
      (stop started) = Some w' \<and> length (events (sdk w')) = 5"
    by simp
  from t o r q have 6: "requests (env ?w2) = []" by simp
  show ?thesis using o ob 1 2 3 4 5 6 r by (simp only: simp_thms)
qed

section \<open>Throttled capture\<close>

lemma dispatch_move:
  "dispatch (MouseMoveSignal now ts x y) s =
     (if now - lastMoveTime s > 50
      then s\<lparr>events := events s @ [\<lparr>type = ''mouseMove'', data = MouseMove x y, timestamp = ts\<rparr>],
             lastMoveTime := now\<rparr>
      else s)"
  by (simp add: on_mousemove_def captureEvent_def)

lemma dispatch_scroll:
  "dispatch (ScrollSignal now ts sx sy) s =
     (if now - lastScrollTime s > 100
      then s\<lparr>events := events s @ [\<lparr>type = ''scroll'', data = ScrollPos sx sy, timestamp = ts\<rparr>],
             lastScrollTime := now\<rparr>
      else s)"
  by (simp add: on_scroll_def captureEvent_def)

lemma dispatch_click:
  "dispatch (ClickSignal ts x y tg) s =
     s\<lparr>events := events s @ [\<lparr>type = ''click'', data = Click x y (toLowerCase tg), timestamp = ts\<rparr>]\<rparr>"
  by (simp add: on_click_def captureEvent_def)

lemmas dispatch_eqs = dispatch_move dispatch_scroll dispatch_click

lemma lastMoveTime_dispatch:
  "lastMoveTime s \<le> lastMoveTime (dispatch g s)"
  "length (events (dispatch g s)) > length (events s) \<Longrightarrow> is_move g \<Longrightarrow>
     lastMoveTime (dispatch g s) = signal_time g \<and> signal_time g > lastMoveTime s + 50"
proof -
  show "lastMoveTime s \<le> lastMoveTime (dispatch g s)"
    by (cases g) (simp_all add: dispatch_eqs del: dispatch.simps)
  assume "length (events (dispatch g s)) > length (events s)" and "is_move g"
  then show "lastMoveTime (dispatch g s) = signal_time g \<and> signal_time g > lastMoveTime s + 50"
    by (cases g) (simp_all add: dispatch_eqs del: dispatch.simps split: if_splits)
qed

lemma lastScrollTime_dispatch:
  "lastScrollTime s \<le> lastScrollTime (dispatch g s)"
  "length (events (dispatch g s)) > length (events s) \<Longrightarrow> is_scroll g \<Longrightarrow>
     lastScrollTime (dispatch g s) = signal_time g \<and> signal_time g > lastScrollTime s + 100"
proof -
  show "lastScrollTime s \<le> lastScrollTime (dispatch g s)"
    by (cases g) (simp_all add: dispatch_eqs del: dispatch.simps)
  assume "length (events (dispatch g s)) > length (events s)" and "is_scroll g"
  then show "lastScrollTime (dispatch g s) = signal_time g \<and>
      signal_time g > lastScrollTime s + 100"
    by (cases g) (simp_all add: dispatch_eqs del: dispatch.simps split: if_splits)
qed

lemma captured_moves_later:
  "g \<in> set (captures gs s) \<Longrightarrow> is_move g \<Longrightarrow> signal_time g > lastMoveTime s + 50"
proof (induction gs arbitrary: s)
  case Nil
  then show ?case by simp
next
  case (Cons g' gs)
  from Cons.prems(1) consider
    (head) "g = g'" "length (events (dispatch g' s)) > length (events s)"
    | (tail) "g \<in> set (captures gs (dispatch g' s))"
    by (auto split: if_splits)
  then show ?case
  proof cases
    case head
    then show ?thesis using lastMoveTime_dispatch(2)[of s g'] Cons.prems(2) by simp
  next
    case tail
    from Cons.IH[OF tail Cons.prems(2)] lastMoveTime_dispatch(1)[of s g'] show ?thesis by simp
  qed
qed

lemma captured_scrolls_later:
  "g \<in> set (captures gs s) \<Longrightarrow> is_scroll g \<Longrightarrow> signal_time g > lastScrollTime s + 100"
proof (induction gs arbitrary: s)
  case Nil
  then show ?case by simp
next
  case (Cons g' gs)
  from Cons.prems(1) consider
    (head) "g = g'" "length (events (dispatch g' s)) > length (events s)"
    | (tail) "g \<in> set (captures gs (dispatch g' s))"
    by (auto split: if_splits)
  then show ?case
  proof cases
    case head
    then show ?thesis using lastScrollTime_dispatch(2)[of s g'] Cons.prems(2) by simp
  next
    case tail
    from Cons.IH[OF tail Cons.prems(2)] lastScrollTime_dispatch(1)[of s g'] show ?thesis by simp
  qed
qed

lemma one_move_per_window:
  "length (filter (\<lambda>g. is_move g \<and> in_window t 50 g) (captures gs s)) \<le> 1"
proof (induction gs arbitrary: s)
  case Nil
  then show ?case by simp
next
  case (Cons g gs)
  let ?s = "dispatch g s"
  let ?P = "\<lambda>g. is_move g \<and> in_window t 50 g"
  show ?case
  proof (cases "length (events ?s) > length (events s) \<and> ?P g")
    case True
    then have last: "lastMoveTime ?s = signal_time g" and w: "signal_time g \<ge> t"
      using lastMoveTime_dispatch(2)[of s g] by (simp_all add: in_window_def)
    have "\<not> ?P g'" if "g' \<in> set (captures gs ?s)" for g'
      using captured_moves_later[OF that] last w by (auto simp: in_window_def)
    then have "filter ?P (captures gs ?s) = []"
      by (simp add: filter_empty_conv)
    then show ?thesis by simp
  next
    case False
    then have "filter ?P (captures (g # gs) s) = filter ?P (captures gs ?s)"
      by auto
    then show ?thesis using Cons.IH[of ?s] by simp
  qed
qed

lemma one_scroll_per_window:
  "length (filter (\<lambda>g. is_scroll g \<and> in_window t 100 g) (captures gs s)) \<le> 1"
proof (induction gs arbitrary: s)
  case Nil
  then show ?case by simp
next
  case (Cons g gs)
  let ?s = "dispatch g s"
  let ?P = "\<lambda>g. is_scroll g \<and> in_window t 100 g"
  show ?case
  proof (cases "length (events ?s) > length (events s) \<and> ?P g")
    case True
    then have last: "lastScrollTime ?s = signal_time g" and w: "signal_time g \<ge> t"
      using lastScrollTime_dispatch(2)[of s g] by (simp_all add: in_window_def)
    have "\<not> ?P g'" if "g' \<in> set (captures gs ?s)" for g'
      using captured_scrolls_later[OF that] last w by (auto simp: in_window_def)
    then have "filter ?P (captures gs ?s) = []"
      by (simp add: filter_empty_conv)
    then show ?thesis by simp
  next
    case False
    then have "filter ?P (captures (g # gs) s) = filter ?P (captures gs ?s)"
      by auto
    then show ?thesis using Cons.IH[of ?s] by simp
  qed
qed

lemma every_click_captured: "filter is_click (captures gs s) = filter is_click gs"
proof (induction gs arbitrary: s)
  case Nil
  then show ?case by simp
next
  case (Cons g gs)
  then show ?case
    by (cases g) (simp_all add: dispatch_eqs del: dispatch.simps)
qed

lemma one_event_per_capture:
  "length (events (deliver gs s)) = length (events s) + length (captures gs s)"
proof (induction gs arbitrary: s)
  case Nil
  then show ?case by simp
next
  case (Cons g gs)
  have "length (events (dispatch g s)) =
      length (events s) + (if length (events (dispatch g s)) > length (events s) then 1 else 0)"
    by (cases g) (simp_all add: dispatch_eqs del: dispatch.simps)
  then show ?case using Cons.IH[of "dispatch g s"] by (simp split: if_splits)
qed


lemma captures_append:
  "captures (gs @ hs) s = captures gs s @ captures hs (deliver gs s)"
  by (induction gs arbitrary: s) simp_all

lemma lastMoveTime_deliver:
  "lastMoveTime (deliver gs s) =
     (if filter is_move (captures gs s) = [] then lastMoveTime s
      else signal_time (last (filter is_move (captures gs s))))"
proof (induction gs arbitrary: s)
  case Nil
  then show ?case by simp
next
  case (Cons g gs)
  have "lastMoveTime (dispatch g s) =
      (if length (events (dispatch g s)) > length (events s) \<and> is_move g
       then signal_time g else lastMoveTime s)"
    by (cases g) (simp_all add: dispatch_eqs del: dispatch.simps)
  then show ?case using Cons.IH[of "dispatch g s"] by simp
qed

lemma lastScrollTime_deliver:
  "lastScrollTime (deliver gs s) =
     (if filter is_scroll (captures gs s) = [] then lastScrollTime s
      else signal_time (last (filter is_scroll (captures gs s))))"
proof (induction gs arbitrary: s)
  case Nil
  then show ?case by simp
next
  case (Cons g gs)
  have "lastScrollTime (dispatch g s) =
      (if length (events (dispatch g s)) > length (events s) \<and> is_scroll g
       then signal_time g else lastScrollTime s)"
    by (cases g) (simp_all add: dispatch_eqs del: dispatch.simps)
  then show ?case using Cons.IH[of "dispatch g s"] by simp
qed

text \<open>
  C5. In every sequence of signals, whatever their timestamps: any interval of 50 ms
  holds at most one captured pointer move and any interval of 100 ms at most one captured
  scroll; every click is captured; each captured signal puts exactly one event on the
  queue. The cool-down of a source runs from its last captured signal (from time 0 before
  the first): a pointer move more than 50 ms after it, or a scroll more than 100 ms after
  it, is captured, and a signal that comes sooner changes nothing.
\<close>

theorem throttle_per_window:
  "length (filter (\<lambda>g. is_move g \<and> in_window t 50 g) (captures gs s)) \<le> 1 \<and>
   length (filter (\<lambda>g. is_scroll g \<and> in_window t 100 g) (captures gs s)) \<le> 1 \<and>
   filter is_click (captures gs s) = filter is_click gs \<and>
   length (events (deliver gs s)) = length (events s) + length (captures gs s) \<and>
   lastMoveTime (deliver gs s) =
     (if filter is_move (captures gs s) = [] then lastMoveTime s
      else signal_time (last (filter is_move (captures gs s)))) \<and>
   lastScrollTime (deliver gs s) =
     (if filter is_scroll (captures gs s) = [] then lastScrollTime s
      else signal_time (last (filter is_scroll (captures gs s)))) \<and>
   (now - lastMoveTime (deliver gs s) > 50 \<longrightarrow>
      captures (gs @ [MouseMoveSignal now ts x y]) s =
        captures gs s @ [MouseMoveSignal now ts x y]) \<and>
   (\<not> now - lastMoveTime (deliver gs s) > 50 \<longrightarrow>
      deliver (gs @ [MouseMoveSignal now ts x y]) s = deliver gs s) \<and>
   (now - lastScrollTime (deliver gs s) > 100 \<longrightarrow>
      captures (gs @ [ScrollSignal now ts x y]) s =
        captures gs s @ [ScrollSignal now ts x y]) \<and>
   (\<not> now - lastScrollTime (deliver gs s) > 100 \<longrightarrow>
      deliver (gs @ [ScrollSignal now ts x y]) s = deliver gs s)"
proof -
  have d: "deliver (gs @ [g]) s = dispatch g (deliver gs s)" for g
    by (induction gs arbitrary: s) simp_all
  have "now - lastMoveTime (deliver gs s) > 50 \<Longrightarrow>
      captures (gs @ [MouseMoveSignal now ts x y]) s =
        captures gs s @ [MouseMoveSignal now ts x y]"
    by (simp add: captures_append dispatch_move del: dispatch.simps)
  moreover have "\<not> now - lastMoveTime (deliver gs s) > 50 \<Longrightarrow>
      deliver (gs @ [MouseMoveSignal now ts x y]) s = deliver gs s"
    by (simp add: d dispatch_move del: dispatch.simps)
  moreover have "now - lastScrollTime (deliver gs s) > 100 \<Longrightarrow>
      captures (gs @ [ScrollSignal now ts x y]) s =
        captures gs s @ [ScrollSignal now ts x y]"
    by (simp add: captures_append dispatch_scroll del: dispatch.simps)
  moreover have "\<not> now - lastScrollTime (deliver gs s) > 100 \<Longrightarrow>
      deliver (gs @ [ScrollSignal now ts x y]) s = deliver gs s"
    by (simp add: d dispatch_scroll del: dispatch.simps)
  ultimately show ?thesis
    using one_move_per_window[of t gs s] one_scroll_per_window[of t gs s]
      every_click_captured[of gs s] one_event_per_capture[of gs s]
      lastMoveTime_deliver[of gs s] lastScrollTime_deliver[of gs s]
    by blast
qed


theorem throttle_per_window_witness:
  "captures [MouseMoveSignal 2000 2000 1 1, MouseMoveSignal 2003 2003 2 2,
       ClickSignal 2004 2 2 ''BUTTON'', ClickSignal 2004 2 2 ''BUTTON'',
       MouseMoveSignal 2009 2009 3 3, ScrollSignal 2010 2010 0 40, ScrollSignal 2050 2050 0 80]
      (sdk started) =
     [MouseMoveSignal 2000 2000 1 1, ClickSignal 2004 2 2 ''BUTTON'',
      ClickSignal 2004 2 2 ''BUTTON'', ScrollSignal 2010 2010 0 40] \<and>
   lastMoveTime (deliver [MouseMoveSignal 2000 2000 1 1, MouseMoveSignal 2003 2003 2 2,
       ClickSignal 2004 2 2 ''BUTTON'', ClickSignal 2004 2 2 ''BUTTON'',
       MouseMoveSignal 2009 2009 3 3, ScrollSignal 2010 2010 0 40, ScrollSignal 2050 2050 0 80]
      (sdk started)) = 2000 \<and>
   captures ([MouseMoveSignal 2000 2000 1 1, MouseMoveSignal 2003 2003 2 2,
       ClickSignal 2004 2 2 ''BUTTON'', ClickSignal 2004 2 2 ''BUTTON'',
       MouseMoveSignal 2009 2009 3 3, ScrollSignal 2010 2010 0 40, ScrollSignal 2050 2050 0 80]
       @ [MouseMoveSignal 2111 2111 4 4]) (sdk started) =
     [MouseMoveSignal 2000 2000 1 1, ClickSignal 2004 2 2 ''BUTTON'',
      ClickSignal 2004 2 2 ''BUTTON'', ScrollSignal 2010 2010 0 40,
      MouseMoveSignal 2111 2111 4 4] \<and>
   deliver ([MouseMoveSignal 2000 2000 1 1, MouseMoveSignal 2003 2003 2 2,
       ClickSignal 2004 2 2 ''BUTTON'', ClickSignal 2004 2 2 ''BUTTON'',
       MouseMoveSignal 2009 2009 3 3, ScrollSignal 2010 2010 0 40, ScrollSignal 2050 2050 0 80]
       @ [MouseMoveSignal 2050 2050 4 4]) (sdk started) =
   deliver [MouseMoveSignal 2000 2000 1 1, MouseMoveSignal 2003 2003 2 2,
       ClickSignal 2004 2 2 ''BUTTON'', ClickSignal 2004 2 2 ''BUTTON'',
       MouseMoveSignal 2009 2009 3 3, ScrollSignal 2010 2010 0 40, ScrollSignal 2050 2050 0 80]
      (sdk started)"
proof -
  let ?gs = "[MouseMoveSignal 2000 2000 1 1, MouseMoveSignal 2003 2003 2 2,
       ClickSignal 2004 2 2 ''BUTTON'', ClickSignal 2004 2 2 ''BUTTON'',
       MouseMoveSignal 2009 2009 3 3, ScrollSignal 2010 2010 0 40, ScrollSignal 2050 2050 0 80]"
  have c: "captures ?gs (sdk started) =
     [MouseMoveSignal 2000 2000 1 1, ClickSignal 2004 2 2 ''BUTTON'',
      ClickSignal 2004 2 2 ''BUTTON'', ScrollSignal 2010 2010 0 40]"
    by (simp add: started_eq on_mousemove_def on_click_def on_scroll_def captureEvent_def)
  note t1 = throttle_per_window[where gs = ?gs and s = "sdk started" and t = 2000
      and now = 2111 and ts = 2111 and x = 4 and y = 4]
  note t2 = throttle_per_window[where gs = ?gs and s = "sdk started" and t = 2000
      and now = 2050 and ts = 2050 and x = 4 and y = 4]
  from t1 have l: "lastMoveTime (deliver ?gs (sdk started)) = 2000"
    unfolding c by simp
  have h1: "2111 - lastMoveTime (deliver ?gs (sdk started)) > 50" unfolding l by simp
  have h2: "\<not> 2050 - lastMoveTime (deliver ?gs (sdk started)) > 50" unfolding l by simp
  from t1 h1 have a: "captures (?gs @ [MouseMoveSignal 2111 2111 4 4]) (sdk started) =
      captures ?gs (sdk started) @ [MouseMoveSignal 2111 2111 4 4]"
    by blast
  from t2 h2 have b: "deliver (?gs @ [MouseMoveSignal 2050 2050 4 4]) (sdk started) =
      deliver ?gs (sdk started)"
    by blast
  show ?thesis
    using c l a b by (simp only: append.simps simp_thms)
qed

section \<open>Order of delivery\<close>

lemma dispatch_appends: "\<exists>new. events (dispatch g s) = events s @ new"
  by (cases g) (simp_all add: dispatch_eqs del: dispatch.simps)

lemma snapshot_callback_appends:
  "snapshot_callback api pg ts s = (s', err) \<Longrightarrow> \<exists>new. events s' = events s @ new"
  by (auto simp: captureEvent_def dest!: snapshot_callback_cases)

lemma drop_appended: "ys = xs @ new \<Longrightarrow> xs @ drop (length xs) ys = ys"
  by simp

lemma step_history:
  assumes "length (in_flight (env w)) \<le> 1"
    and "begins_send a \<and> events (sdk w) \<noteq> [] \<longrightarrow> in_flight (env w) = []"
    and "step api a w = Some w'"
  shows "history w' = history w @
           (if is_capture a then drop (length (events (sdk w))) (events (sdk w')) else []) \<and>
         length (in_flight (env w')) \<le> 1"
proof (cases a)
  case (Signal g)
  from dispatch_appends[of g "sdk w"] obtain new where
    "events (dispatch g (sdk w)) = events (sdk w) @ new" ..
  with Signal assms show ?thesis by (auto simp: history_def)
next
  case MutationNotice
  with assms show ?thesis
    by (auto simp: history_def handleDOMMutation_def Let_def split: if_splits option.splits)
next
  case (TimeoutFires h pg ts)
  with assms obtain s' err where cb: "snapshot_callback api pg ts (sdk w) = (s', err)"
    and w': "w' = \<lparr>sdk = s', env = (env w)\<lparr>timeouts := timeouts (env w) - {h},
        uncaught := uncaught (env w) @ (case err of None \<Rightarrow> [] | Some e \<Rightarrow> [e])\<rparr>\<rparr>"
    by (auto split: if_splits prod.splits)
  from snapshot_callback_appends[OF cb] obtain new where "events s' = events (sdk w) @ new" ..
  with TimeoutFires w' assms(1) show ?thesis by (simp add: history_def)
next
  case (IntervalFires h)
  show ?thesis
  proof (cases "events (sdk w) = []")
    case True
    with IntervalFires assms show ?thesis
      by (auto simp: sendEvents_begin_empty split: if_splits)
  next
    case False
    with IntervalFires assms have "in_flight (env w) = []" by simp
    with False IntervalFires assms show ?thesis
      by (auto simp: sendEvents_begin_nonempty history_def split: if_splits)
  qed
next
  case (FetchSettles i r)
  with assms have i: "i < length (in_flight (env w))" by (simp split: if_splits)
  with assms(1) obtain batch where b: "in_flight (env w) = [batch]" and i0: "i = 0"
    by (cases "in_flight (env w)") auto
  from FetchSettles assms(3) b i0 show ?thesis
    by (cases r) (auto simp: history_def remove_nth_def requeue_def)
next
  case StopCall
  with assms show ?thesis by (auto simp: history_def stop_def split: option.splits)
qed

lemma run_history:
  "length (in_flight (env w)) \<le> 1 \<Longrightarrow> serial api acts w \<Longrightarrow> run api acts w = Some w' \<Longrightarrow>
     history w' = history w @ captured_by api acts w"
proof (induction acts arbitrary: w)
  case Nil
  then show ?case by simp
next
  case (Cons a acts)
  from Cons.prems(3) obtain w1 where s: "step api a w = Some w1"
    and r: "run api acts w1 = Some w'"
    by (auto split: option.splits)
  from Cons.prems(2) s have g: "begins_send a \<and> events (sdk w) \<noteq> [] \<longrightarrow> in_flight (env w) = []"
    and ser: "serial api acts w1"
    by simp_all
  from step_history[OF Cons.prems(1) g s] Cons.IH[OF _ ser r] s show ?case by simp
qed


lemma failed_send_requeues_at_head:
  "r \<noteq> Response True True \<Longrightarrow>
     sendEvents_resume r batch w = w\<lparr>sdk := (sdk w)\<lparr>events := batch @ events (sdk w)\<rparr>\<rparr>"
  by (cases r) (auto simp: requeue_def)

text \<open>
  C1, as the code has it. Sends can overlap: the interval timer fires every second whether
  or not the send before has ended. In a run where none overlaps, the acknowledged batches,
  the batch in flight and the queue, read in this order, are at every moment the events
  captured so far, in the order of capture, each one once; a send that fails puts its batch
  back at the head of the queue, ahead of everything enqueued during the attempt; and once
  nothing is in flight and the queue is empty, the acknowledged events are all the captured
  events in the order of capture.
\<close>

theorem serial_sends_keep_capture_order:
  assumes "length (in_flight (env w)) \<le> 1"
    and "serial api acts w"
    and "run api acts w = Some w'"
  shows "history w' = history w @ captured_by api acts w \<and>
         (in_flight (env w') = [] \<and> events (sdk w') = [] \<longrightarrow>
            acknowledged (env w') = history w @ captured_by api acts w) \<and>
         (r \<noteq> Response True True \<longrightarrow>
            events (sdk (sendEvents_resume r batch w')) = batch @ events (sdk w') \<and>
            acknowledged (env (sendEvents_resume r batch w')) = acknowledged (env w'))"
proof -
  have h: "history w' = history w @ captured_by api acts w"
    using assms by (rule run_history)
  moreover have "acknowledged (env w') = history w'"
    if "in_flight (env w') = [] \<and> events (sdk w') = []"
    using that by (simp add: history_def)
  moreover have "events (sdk (sendEvents_resume r batch w')) = batch @ events (sdk w') \<and>
      acknowledged (env (sendEvents_resume r batch w')) = acknowledged (env w')"
    if "r \<noteq> Response True True"
    by (simp add: failed_send_requeues_at_head[OF that])
  ultimately show ?thesis by simp
qed

lemma retry_run_result:
  "map_option (\<lambda>w. (map type (acknowledged (env w)), in_flight (env w), events (sdk w)))
     (run login_api retry_run started) =
   Some ([''domSnapshot'', ''scroll'', ''click'', ''click''], [], [])"
  by code_simp

lemma retry_run_serial: "serial login_api retry_run started"
  by code_simp

lemma retry_run_captured:
  "map type (history started @ captured_by login_api retry_run started) =
     [''domSnapshot'', ''scroll'', ''click'', ''click'']"
  by code_simp

theorem serial_sends_keep_capture_order_witness:
  "length (in_flight (env started)) \<le> 1 \<and> serial login_api retry_run started \<and>
   map_option (\<lambda>w. (map type (acknowledged (env w)), in_flight (env w), events (sdk w)))
     (run login_api retry_run started) =
     Some ([''domSnapshot'', ''scroll'', ''click'', ''click''], [], []) \<and>
   map_option (\<lambda>w. acknowledged (env w)) (run login_api retry_run started) =
     Some (history started @ captured_by login_api retry_run started)"
proof -
  have one: "length (in_flight (env started)) \<le> 1" by (simp add: started_eq)
  obtain w' where r: "run login_api retry_run started = Some w'"
    using retry_run_result by (cases "run login_api retry_run started") simp_all
  with retry_run_result have fin: "in_flight (env w') = [] \<and> events (sdk w') = []"
    by simp
  from serial_sends_keep_capture_order[OF one retry_run_serial r] fin
  have "acknowledged (env w') = history started @ captured_by login_api retry_run started"
    by blast
  with r one retry_run_serial retry_run_result show ?thesis by simp
qed

text \<open>
  C1, as stated, fails when sends overlap. The first send carries the two events of session
  start; a click is captured; the timer fires again and a second send carries the click;
  then both sends fail, in the order they were made. Each failure puts its batch at the head
  of the queue, so the click ends up in front of the older events, and the next send, which
  succeeds, delivers the click first.
\<close>

theorem overlapping_sends_reorder:
  "map_option (\<lambda>w. (map type (acknowledged (env w)), in_flight (env w), events (sdk w)))
     (run login_api overlapping_run started) =
     Some ([''click'', ''domSnapshot'', ''scroll''], [], []) \<and>
   map type (history started @ captured_by login_api overlapping_run started) =
     [''domSnapshot'', ''scroll'', ''click'']"
  by code_simp

section \<open>Snapshots\<close>

lemma snapshot_callback_ok:
  assumes "document_outerHTML api pg = Inr raw" and "sanitizeDOM api raw = Inr out"
  shows "snapshot_callback api pg ts s =
     (if out \<noteq> lastDOMSnapshot s
      then (s\<lparr>events := events s @
                 [\<lparr>type = ''domSnapshot'',
                   data = DomSnapshot out (innerWidth pg) (innerHeight pg) (href pg),
                   timestamp = ts\<rparr>],
               lastDOMSnapshot := out\<rparr>, None)
      else (s, None))"
  using assms by (simp add: snapshot_callback_def captureEvent_def)

text \<open>
  The debounced path emits only on a difference and records what it emitted: of two
  computations in a row with the same sanitized output, the second enqueues nothing.
\<close>

lemma debounced_snapshots_deduplicate:
  assumes "document_outerHTML api pg = Inr raw" and "sanitizeDOM api raw = Inr out"
    and "document_outerHTML api pg' = Inr raw'" and "sanitizeDOM api raw' = Inr out"
  shows "snapshot_callback api pg' ts' (fst (snapshot_callback api pg ts s)) =
           (fst (snapshot_callback api pg ts s), None) \<and>
         lastDOMSnapshot (fst (snapshot_callback api pg ts s)) = out"
  by (simp add: snapshot_callback_ok[OF assms(1,2)] snapshot_callback_ok[OF assms(3,4)])

text \<open>
  C2 at session start. \<open>captureInitialState\<close> enqueues the first snapshot and leaves
  \<open>lastDOMSnapshot\<close> empty. The first debounced computation therefore compares against
  the empty string, and on the unchanged page it enqueues the same sanitized snapshot a
  second time.
\<close>

theorem initial_snapshot_is_emitted_twice:
  "lastDOMSnapshot (sdk started) = [] \<and>
   map data (events (sdk started)) =
     [DomSnapshot
        (''<html><head></head><body><button id='' @ quoted ''b'' @ ''>Go</button>'' @
         ''<input type='' @ quoted ''password'' @ ''></body></html>'')
        800 600 ''https://example.org/login'',
      ScrollPos 0 0] \<and>
   map_option (\<lambda>w. map data (events (sdk w)))
     (run login_api [MutationNotice, TimeoutFires 2 login_view 3000] started) =
   Some [DomSnapshot
           (''<html><head></head><body><button id='' @ quoted ''b'' @ ''>Go</button>'' @
            ''<input type='' @ quoted ''password'' @ ''></body></html>'')
           800 600 ''https://example.org/login'',
         ScrollPos 0 0,
         DomSnapshot
           (''<html><head></head><body><button id='' @ quoted ''b'' @ ''>Go</button>'' @
            ''<input type='' @ quoted ''password'' @ ''></body></html>'')
           800 600 ''https://example.org/login'']"
  by code_simp

section \<open>Errors in the snapshot path\<close>

lemma snapshot_callback_error:
  assumes "document_outerHTML api pg = Inl e \<or>
           (\<exists>raw. document_outerHTML api pg = Inr raw \<and> sanitizeDOM api raw = Inl e)"
  shows "snapshot_callback api pg ts s = (s, Some e)"
  using assms by (auto simp: snapshot_callback_def)

lemma captureInitialState_error:
  assumes "document_outerHTML api pg = Inl e \<or>
           (\<exists>raw. document_outerHTML api pg = Inr raw \<and> sanitizeDOM api raw = Inl e)"
  shows "captureInitialState api pg t1 t2 w = (w, Some e)"
  using assms by (auto simp: captureInitialState_def)

text \<open>
  C7, as stated, fails: nothing in the snapshot path catches. With a parser that raises,
  the function passed to \<open>setTimeout\<close> ends with the error, which reaches the host
  uncaught, and at session start the error leaves the constructor.
\<close>

theorem snapshot_error_propagates:
  "snapshot_callback failing_api login_view 3000 (sdk started) =
     (sdk started, Some (HostError ''malformed'')) \<and>
   map_option (\<lambda>w. uncaught (env w))
     (run failing_api [MutationNotice, TimeoutFires 2 login_view 3000] started) =
     Some [HostError ''malformed''] \<and>
   map_sum id snd
     (constructor failing_api (Some full_config) ''s1'' login_view 1000 1000 idle_host) =
     Inr (Some (HostError ''malformed''))"
  by code_simp

text \<open>
  C7, as the code has it. When reading the document or sanitizing it raises in a debounced
  snapshot cycle, the error is not caught: it leaves the timer callback and reaches the host.
  That cycle enqueues nothing and changes no field of the session, and the listeners go on
  as before: a signal after the failed cycle is handled as it would have been without it.
  Raised at session start, the error leaves the constructor.
\<close>

theorem snapshot_error_skips_cycle_uncaught:
  assumes "document_outerHTML api pg = Inl e \<or>
           (\<exists>raw. document_outerHTML api pg = Inr raw \<and> sanitizeDOM api raw = Inl e)"
  shows "snapshot_callback api pg ts s = (s, Some e) \<and>
         (h \<in> timeouts (env w) \<longrightarrow>
            step api (TimeoutFires h pg ts) w =
              Some (w\<lparr>env := (env w)\<lparr>timeouts := timeouts (env w) - {h},
                                      uncaught := uncaught (env w) @ [e]\<rparr>\<rparr>) \<and>
            map_option sdk (run api [TimeoutFires h pg ts, Signal g] w) =
              Some (dispatch g (sdk w))) \<and>
         captureInitialState api pg t1 t2 w = (w, Some e) \<and>
         map_sum id snd (constructor api (Some config) sid pg t1 t2 h0) = Inr (Some e)"
  using snapshot_callback_error[OF assms] captureInitialState_error[OF assms]
  by (simp add: constructor_def Let_def)

theorem snapshot_error_skips_cycle_uncaught_witness:
  "document_outerHTML failing_api login_view = Inr (serialize login_page) \<and>
   sanitizeDOM failing_api (serialize login_page) = Inl (HostError ''malformed'') \<and>
   map_sum id snd
     (constructor failing_api (Some empty_config) ''s2'' login_view 1000 1000 idle_host) =
     Inr (Some (HostError ''malformed'')) \<and>
   2 \<in> timeouts (env (handleDOMMutation started)) \<and>
   map_option (events \<circ> sdk)
     (run failing_api [TimeoutFires 2 login_view 3000, Signal (ClickSignal 3100 1 2 ''P'')]
        (handleDOMMutation started)) =
     Some (events (sdk started) @
       [\<lparr>type = ''click'', data = Click 1 2 ''p'', timestamp = 3100\<rparr>]) \<and>
   map_option (\<lambda>w. uncaught (env w))
     (step failing_api (TimeoutFires 2 login_view 3000) (handleDOMMutation started)) =
     Some [HostError ''malformed'']"
proof -
  have r: "document_outerHTML failing_api login_view = Inr (serialize login_page)"
    by (simp add: document_outerHTML_def failing_api_def login_view_def)
  have f: "sanitizeDOM failing_api (serialize login_page) = Inl (HostError ''malformed'')"
    by (simp add: sanitizeDOM_def failing_api_def)
  have h: "document_outerHTML failing_api login_view = Inl (HostError ''malformed'') \<or>
      (\<exists>raw. document_outerHTML failing_api login_view = Inr raw \<and>
         sanitizeDOM failing_api raw = Inl (HostError ''malformed''))"
    using r f by blast
  let ?w = "handleDOMMutation started"
  have t: "2 \<in> timeouts (env ?w)" and u: "uncaught (env ?w) = []"
    and s: "sdk ?w = (sdk started)\<lparr>domSnapshotTimeout := Some 2\<rparr>"
    by (simp_all add: handleDOMMutation_def started_eq truthy_def)
  note inst = snapshot_error_skips_cycle_uncaught[OF h, where h = 2 and w = ?w and ts = 3000
      and g = "ClickSignal 3100 1 2 ''P''" and config = empty_config and sid = "''s2''"
      and ?t1.0 = 1000 and ?t2.0 = 1000 and ?h0.0 = idle_host]
  from inst have k: "map_sum id snd
      (constructor failing_api (Some empty_config) ''s2'' login_view 1000 1000 idle_host) =
      Inr (Some (HostError ''malformed''))"
    by blast
  from inst t have a: "map_option sdk
      (run failing_api [TimeoutFires 2 login_view 3000, Signal (ClickSignal 3100 1 2 ''P'')] ?w) =
      Some (dispatch (ClickSignal 3100 1 2 ''P'') (sdk ?w))"
    and b: "step failing_api (TimeoutFires 2 login_view 3000) ?w =
      Some (?w\<lparr>env := (env ?w)\<lparr>timeouts := timeouts (env ?w) - {2},
                                uncaught := uncaught (env ?w) @ [HostError ''malformed'']\<rparr>\<rparr>)"
    by blast+
  have c: "events (dispatch (ClickSignal 3100 1 2 ''P'') (sdk ?w)) =
      events (sdk started) @ [\<lparr>type = ''click'', data = Click 1 2 ''p'', timestamp = 3100\<rparr>]"
    unfolding s by code_simp
  have "map_option (events \<circ> sdk)
     (run failing_api [TimeoutFires 2 login_view 3000, Signal (ClickSignal 3100 1 2 ''P'')] ?w) =
     map_option events (map_option sdk
     (run failing_api [TimeoutFires 2 login_view 3000, Signal (ClickSignal 3100 1 2 ''P'')] ?w))"
    by (simp add: option.map_comp)
  then have d: "map_option (events \<circ> sdk)
     (run failing_api [TimeoutFires 2 login_view 3000, Signal (ClickSignal 3100 1 2 ''P'')] ?w) =
     Some (events (sdk started) @
       [\<lparr>type = ''click'', data = Click 1 2 ''p'', timestamp = 3100\<rparr>])"
    unfolding a using c by simp
  show ?thesis using r f t d b u k by simp
qed

section \<open>Construction\<close>

lemma captureInitialState_error_iff:
  "snd (captureInitialState api pg t1 t2 w) = None \<longleftrightarrow>
     hasBody pg \<and>
     (\<exists>raw out. document_outerHTML api pg = Inr raw \<and> sanitizeDOM api raw = Inr out)"
  by (auto simp: captureInitialState_def Let_def split: sum.splits)

lemma captureInitialState_error_config:
  "snd (captureInitialState api pg t1 t2 w) = snd (captureInitialState api pg t1 t2 w')"
  by (auto simp: captureInitialState_def Let_def split: sum.splits)

lemma constructor_error:
  "map_sum id snd (constructor api (Some c) sid pg t1 t2 h) =
   map_sum id snd (constructor api (Some c') sid pg t1 t2 h)"
  by (simp add: constructor_def Let_def) (rule captureInitialState_error_config)

lemma constructor_error_iff:
  assumes "constructor api (Some c) sid pg t1 t2 h = Inr (w, err)"
  shows "err = None \<longleftrightarrow>
     hasBody pg \<and>
     (\<exists>raw out. document_outerHTML api pg = Inr raw \<and> sanitizeDOM api raw = Inr out)"
proof -
  let ?w0 = "startEventSending
          \<lparr>sdk = \<lparr>events = [], websiteId = cfg_websiteId c, sessionId = sid,
                   apiEndpoint = cfg_apiEndpoint c,
                   debug = (case cfg_debug c of None \<Rightarrow> False | Some b \<Rightarrow> b),
                   isRunning = False, sendInterval = None, lastDOMSnapshot = [],
                   domSnapshotTimeout = None, lastMoveTime = 0, lastScrollTime = 0\<rparr>,
           env = h\<rparr>"
  from assms have "err = snd (captureInitialState api pg t1 t2 ?w0)"
    by (simp add: constructor_def Let_def)
  then show ?thesis by (simp only: captureInitialState_error_iff)
qed

text \<open>
  C6, as stated, fails: the constructor does not look at what the configuration object
  holds. With the object \<open>{}\<close>, which has neither \<open>websiteId\<close> nor \<open>apiEndpoint\<close>,
  construction returns normally, the running flag is set and the flush timer is armed; the
  first flush then posts to the address built from the missing endpoint.
\<close>

theorem missing_config_starts_session:
  "cfg_websiteId empty_config = Undefined \<and> cfg_apiEndpoint empty_config = Undefined \<and>
   map_sum id
     (\<lambda>r. (snd r, isRunning (sdk (fst r)), intervals (env (fst r)),
            map url (requests (env (sendEvents_begin (fst r))))))
     (constructor login_api (Some empty_config) ''s1'' login_view 1000 1000 idle_host) =
     Inr (None, True, {1}, [''undefined/api/events''])"
  by code_simp

text \<open>
  C6, as the code has it. A configuration object without \<open>websiteId\<close> or
  \<open>apiEndpoint\<close> does not make construction fail: for every configuration object the
  constructor stores what the object holds, sets the running flag and arms the flush timer.
  The session fails to start in one case only, when no configuration object is passed
  (\<open>undefined\<close> or \<open>null\<close>): reading \<open>config.websiteId\<close> raises a \<open>TypeError\<close>
  before any listener or timer is set up. With a configuration object the constructor can
  still raise, after the session has started, and whether it does is the same for every
  configuration object: it raises exactly when the initial snapshot cannot be taken or the
  document has no body to observe.
\<close>

theorem constructor_fails_to_start_only_without_config:
  "constructor api None sid pg t1 t2 h = Inl TypeError \<and>
   ((\<exists>e. constructor api config sid pg t1 t2 h = Inl e) \<longleftrightarrow> config = None) \<and>
   (constructor api (Some c) sid pg t1 t2 h = Inr (w, err) \<longrightarrow>
      isRunning (sdk w) \<and>
      sendInterval (sdk w) = Some (Suc (lastHandle h)) \<and>
      Suc (lastHandle h) \<in> intervals (env w) \<and>
      websiteId (sdk w) = cfg_websiteId c \<and>
      apiEndpoint (sdk w) = cfg_apiEndpoint c \<and>
      map_sum id snd (constructor api (Some c') sid pg t1 t2 h) = Inr err \<and>
      (err = None \<longleftrightarrow>
         hasBody pg \<and>
         (\<exists>raw out. document_outerHTML api pg = Inr raw \<and> sanitizeDOM api raw = Inr out)))"
proof (intro conjI impI)
  show "constructor api None sid pg t1 t2 h = Inl TypeError"
    by (simp add: constructor_def)
  show "(\<exists>e. constructor api config sid pg t1 t2 h = Inl e) \<longleftrightarrow> config = None"
    by (cases config) (simp_all add: constructor_def Let_def)
next
  assume a: "constructor api (Some c) sid pg t1 t2 h = Inr (w, err)"
  from constructor_frame[OF a]
  show "isRunning (sdk w)" "sendInterval (sdk w) = Some (Suc (lastHandle h))"
    "Suc (lastHandle h) \<in> intervals (env w)" "websiteId (sdk w) = cfg_websiteId c"
    "apiEndpoint (sdk w) = cfg_apiEndpoint c"
    by simp_all
  from constructor_error[of api c' sid pg t1 t2 h c] a
  show "map_sum id snd (constructor api (Some c') sid pg t1 t2 h) = Inr err"
    by simp
  from constructor_error_iff[OF a]
  show "err = None \<longleftrightarrow>
         hasBody pg \<and>
         (\<exists>raw out. document_outerHTML api pg = Inr raw \<and> sanitizeDOM api raw = Inr out)" .
qed

theorem constructor_fails_to_start_only_without_config_witness:
  "constructor login_api None ''s1'' login_view 1000 1000 idle_host = Inl TypeError \<and>
   constructor login_api (Some full_config) ''s1'' login_view 1000 1000 idle_host =
     Inr (started, None) \<and>
   isRunning (sdk started) \<and> 1 \<in> intervals (env started) \<and>
   websiteId (sdk started) = Str ''site'' \<and>
   map_sum id snd
     (constructor login_api (Some empty_config) ''s1'' login_view 1000 1000 idle_host) =
     Inr None"
proof -
  have l: "lastHandle idle_host = 0" and f: "cfg_websiteId full_config = Str ''site''"
    by (simp_all add: idle_host_def full_config_def)
  note t = constructor_fails_to_start_only_without_config[where api = login_api
      and sid = "''s1''" and pg = login_view and ?t1.0 = 1000 and ?t2.0 = 1000
      and h = idle_host and c = full_config and c' = empty_config and w = started
      and err = None and config = None]
  from t have 1: "constructor login_api None ''s1'' login_view 1000 1000 idle_host = Inl TypeError"
    by blast
  from t started_constructed l f
  have 2: "isRunning (sdk started) \<and> 1 \<in> intervals (env started) \<and>
      websiteId (sdk started) = Str ''site'' \<and>
      map_sum id snd
        (constructor login_api (Some empty_config) ''s1'' login_view 1000 1000 idle_host) =
        Inr None"
    by simp
  show ?thesis using 1 2 started_constructed by blast
qed

end
